theory Spec2Isabelle
  imports Complex_Main
begin

section \<open>The denoising-autoencoder disaggregator (DAE/daedisaggregator.py)\<close>

text \<open>
  A shallow embedding of the class \<open>DAEDisaggregator\<close>. Floating-point numbers are
  idealised as real numbers (no rounding, no overflow), except where the rounding of
  binary64 is written out; a missing reading, which pandas stores as NaN, is \<open>None\<close>.
  The neural network is a black box: its \<open>fit\<close>, \<open>predict\<close> and \<open>load_model\<close> are
  parameters of the model.
\<close>

subsection \<open>Values, series and errors\<close>

type_synonym fval = "real option"

type_synonym rows = "(int \<times> fval) list"

datatype error =
    TypeError
  | ValueError
  | ZeroDivisionError
  | AttributeError
  | IndexError
  | StopIteration
  | OSError
  | UnboundLocalError
  | NonFinite
  | ModelError

text \<open>
  \<open>NonFinite\<close> is not raised by the source: dividing a series by a zero scale gives
  infinities and NaN there and the computation goes on. The embedding has no infinite
  values and stops at that point instead of inventing a quotient.
\<close>

subsection \<open>\<open>_normalize\<close> and \<open>_denormalize\<close>\<close>

text \<open>
  \<open>tchunk = chunk / mmax\<close> and \<open>tchunk = chunk * mmax\<close>. The scale is \<open>self.mmax\<close>:
  \<open>None\<close> is Python's \<open>None\<close> (the operator raises TypeError), \<open>Some None\<close> is a NaN
  scale (every element becomes NaN), \<open>Some (Some m)\<close> is the number \<open>m\<close>. The result
  is a new series over the same index.
\<close>

definition normalize_chunk :: "rows \<Rightarrow> fval option \<Rightarrow> error + rows" where
  "normalize_chunk chunk mmax =
     (case mmax of
        None \<Rightarrow> Inl TypeError
      | Some None \<Rightarrow> Inr (map (\<lambda>(t, v). (t, None)) chunk)
      | Some (Some m) \<Rightarrow>
          if m = 0 then Inl NonFinite
          else Inr (map (\<lambda>(t, v). (t, map_option (\<lambda>x. x / m) v)) chunk))"

definition denormalize_chunk :: "rows \<Rightarrow> fval option \<Rightarrow> error + rows" where
  "denormalize_chunk chunk mmax =
     (case mmax of
        None \<Rightarrow> Inl TypeError
      | Some None \<Rightarrow> Inr (map (\<lambda>(t, v). (t, None)) chunk)
      | Some (Some m) \<Rightarrow> Inr (map (\<lambda>(t, v). (t, map_option (\<lambda>x. x * m) v)) chunk))"

subsection \<open>The two operators in floating point\<close>

text \<open>
  The rest of the embedding computes in exact arithmetic. NumPy's default float is IEEE
  binary64: the result of a division or a multiplication is the exact result rounded to
  the nearest number with a significand of 53 bits, a tie going to the even significand.
  \<open>binary64\<close> is this rounding, with the exponent range taken unbounded (no overflow, no
  underflow); \<open>normalize_binary64\<close> and \<open>denormalize_binary64\<close> are \<open>_normalize\<close>
  and \<open>_denormalize\<close> with it.
\<close>

definition round_half_even :: "real \<Rightarrow> int" where
  "round_half_even z =
     (if z - of_int \<lfloor>z\<rfloor> < 1 / 2 then \<lfloor>z\<rfloor>
      else if 1 / 2 < z - of_int \<lfloor>z\<rfloor> then \<lfloor>z\<rfloor> + 1
      else if even \<lfloor>z\<rfloor> then \<lfloor>z\<rfloor> else \<lfloor>z\<rfloor> + 1)"

definition binary64 :: "real \<Rightarrow> real" where
  "binary64 x =
     (if x = 0 then 0
      else of_int (round_half_even (x / 2 powr (of_int \<lfloor>log 2 \<bar>x\<bar>\<rfloor> - 52)))
             * 2 powr (of_int \<lfloor>log 2 \<bar>x\<bar>\<rfloor> - 52))"

definition normalize_binary64 :: "rows \<Rightarrow> fval option \<Rightarrow> error + rows" where
  "normalize_binary64 chunk mmax =
     (case mmax of
        None \<Rightarrow> Inl TypeError
      | Some None \<Rightarrow> Inr (map (\<lambda>(t, v). (t, None)) chunk)
      | Some (Some m) \<Rightarrow>
          if m = 0 then Inl NonFinite
          else Inr (map (\<lambda>(t, v). (t, map_option (\<lambda>x. binary64 (x / m)) v)) chunk))"

definition denormalize_binary64 :: "rows \<Rightarrow> fval option \<Rightarrow> error + rows" where
  "denormalize_binary64 chunk mmax =
     (case mmax of
        None \<Rightarrow> Inl TypeError
      | Some None \<Rightarrow> Inr (map (\<lambda>(t, v). (t, None)) chunk)
      | Some (Some m) \<Rightarrow>
          Inr (map (\<lambda>(t, v). (t, map_option (\<lambda>x. binary64 (x * m)) v)) chunk))"

subsection \<open>Missing values, padding and reshaping\<close>

text \<open>\<open>fillna(0)\<close>: every missing value becomes 0, so the values are numbers afterwards.\<close>

definition fillna :: "rows \<Rightarrow> (int \<times> real) list" where
  "fillna chunk = map (\<lambda>(t, v). (t, case v of None \<Rightarrow> 0 | Some x \<Rightarrow> x)) chunk"

text \<open>A series of numbers seen as a series that may hold missing values.\<close>

definition as_rows :: "(int \<times> real) list \<Rightarrow> rows" where
  "as_rows chunk = map (\<lambda>(t, x). (t, Some x)) chunk"

text \<open>
  \<open>additional = s - (n % s)\<close> on Python integers: \<open>%\<close> raises ZeroDivisionError for
  \<open>s = 0\<close> and is the floored remainder otherwise, which is \<open>mod\<close> on \<open>int\<close>.
\<close>

definition additional :: "int \<Rightarrow> nat \<Rightarrow> error + int" where
  "additional s n = (if s = 0 then Inl ZeroDivisionError else Inr (s - (int n mod s)))"

text \<open>\<open>np.zeros(k)\<close> raises ValueError for a negative dimension.\<close>

definition np_zeros :: "int \<Rightarrow> error + real list" where
  "np_zeros k = (if k < 0 then Inl ValueError else Inr (replicate (nat k) 0))"

definition np_append :: "real list \<Rightarrow> real list \<Rightarrow> real list" where
  "np_append xs ys = xs @ ys"

text \<open>
  A dimension handed to \<open>np.reshape\<close> is a Python number. The file starts with
  \<open>from __future__ import division\<close>, so \<open>len(X_batch) / s\<close> is a float even when
  the division is exact; \<open>int(len(X_batch) / s)\<close> is an integer. NumPy (1.12 and
  later) refuses a float dimension with TypeError, and refuses a shape whose size is not
  the size of the array with ValueError (the counts that arise here are not negative).
  The batch has shape \<open>(count, s, 1)\<close>; the last
  axis has one element and is left out, so a window is a list of \<open>s\<close> numbers and
  window \<open>i\<close> of the row-major reshape holds the elements from \<open>i * s\<close> on.
\<close>

datatype pynum = PyInt int | PyFloat real

definition py_truediv :: "nat \<Rightarrow> int \<Rightarrow> pynum" where
  "py_truediv n s = PyFloat (real n / real_of_int s)"

definition py_int :: "pynum \<Rightarrow> pynum" where
  "py_int x = (case x of PyInt i \<Rightarrow> PyInt i
               | PyFloat r \<Rightarrow> PyInt (if r < 0 then \<lceil>r\<rceil> else \<lfloor>r\<rfloor>))"

definition np_reshape :: "real list \<Rightarrow> pynum \<Rightarrow> int \<Rightarrow> error + real list list" where
  "np_reshape xs count s =
     (case count of
        PyFloat r \<Rightarrow> Inl TypeError
      | PyInt c \<Rightarrow>
          if c < 0 \<or> s < 0 \<or> c * s \<noteq> int (length xs) then Inl ValueError
          else Inr (map (\<lambda>i. take (nat s) (drop (i * nat s) xs)) [0..<nat c]))"

text \<open>\<open>np.reshape(pred, (k))\<close>: the flat array, when the prediction has \<open>k\<close> elements.\<close>

definition np_flatten :: "'a list list \<Rightarrow> int \<Rightarrow> error + 'a list" where
  "np_flatten pred k =
     (if int (length (concat pred)) = k then Inr (concat pred) else Inl ValueError)"

subsection \<open>Series objects and the store\<close>

text \<open>
  A pandas Series is a mutable object: \<open>fillna(0, inplace=True)\<close> changes the object
  its caller holds. Objects live in a store and are passed by reference. A chunk of
  nilmtk carries a \<open>name\<close> (the measurement) and a \<open>timeframe\<close> attribute; a series
  computed by an arithmetic operator keeps the name and has no \<open>timeframe\<close>.
\<close>

record series =
  data :: rows
  name :: "string \<times> string"
  timeframe :: "(int \<times> int) option"

record store =
  cells :: "nat \<Rightarrow> series"
  nxt :: nat

definition alloc :: "store \<Rightarrow> series \<Rightarrow> nat \<times> store" where
  "alloc h x = (nxt h, h\<lparr>cells := (cells h)(nxt h := x), nxt := Suc (nxt h)\<rparr>)"

definition fillna_inplace :: "store \<Rightarrow> nat \<Rightarrow> store" where
  "fillna_inplace h r =
     h\<lparr>cells := (cells h)(r := (cells h r)\<lparr>data := as_rows (fillna (data (cells h r)))\<rparr>)\<rparr>"

subsection \<open>The disaggregator instance\<close>

record 'm dae =
  mmax :: "fval option"
  sequence_length :: int
  MIN_CHUNK_LENGTH :: int
  meter_metadata :: int
  model :: 'm

text \<open>\<open>__init__\<close>; \<open>create_model\<close> stands for \<open>_create_model\<close>, which builds the network.\<close>

definition init :: "(int \<Rightarrow> 'm) \<Rightarrow> int \<Rightarrow> int \<Rightarrow> 'm dae" where
  "init create_model meter sequence_len =
     \<lparr>mmax = None, sequence_length = sequence_len, MIN_CHUNK_LENGTH = sequence_len,
      meter_metadata = meter, model = create_model sequence_len\<rparr>"

subsection \<open>\<open>disaggregate_chunk\<close>\<close>

text \<open>
  Lines 190 to 206. The series is filled in place first; the last component of the
  result is the store after the call, also when the call raises. The data frame returned
  has one column, named 0, over the index of \<open>mains\<close>. The windows handed to the
  network hold numbers; what the network returns may hold NaN.
\<close>

definition disaggregate_chunk ::
  "('m \<Rightarrow> real list list \<Rightarrow> error + fval list list) \<Rightarrow> 'm dae \<Rightarrow> store \<Rightarrow> nat
     \<Rightarrow> (error + rows) \<times> store" where
  "disaggregate_chunk predict self h mains =
     (let s = sequence_length self;
          up_limit = length (data (cells h mains));
          h' = fillna_inplace h mains;
          filled = fillna (data (cells h mains))
      in ((case additional s up_limit of
             Inl e \<Rightarrow> Inl e
           | Inr a \<Rightarrow>
              (case np_zeros a of
                 Inl e \<Rightarrow> Inl e
               | Inr z \<Rightarrow>
                  (let X_batch = np_append (map snd filled) z
                   in case np_reshape X_batch (py_truediv (length X_batch) s) s of
                        Inl e \<Rightarrow> Inl e
                      | Inr X \<Rightarrow>
                         (case predict (model self) X of
                            Inl e \<Rightarrow> Inl e
                          | Inr pred \<Rightarrow>
                             (case np_flatten pred (int up_limit + a) of
                                Inl e \<Rightarrow> Inl e
                              | Inr flat \<Rightarrow>
                                 Inr (zip (map fst filled) (take up_limit flat))))))),
          h'))"

subsection \<open>\<open>train_on_chunk\<close>\<close>

text \<open>
  \<open>mainchunk.index.intersection(meterchunk.index)\<close> keeps the time stamps of the
  first index that occur in the second, in order; \<open>mainchunk[ix]\<close> selects, for each
  label of \<open>ix\<close> in turn, the rows that carry it. (The indexes of a power series are
  duplicate-free; pandas versions differ on duplicates.)
\<close>

definition index_intersection :: "int list \<Rightarrow> int list \<Rightarrow> int list" where
  "index_intersection a b = filter (\<lambda>t. t \<in> set b) a"

definition select :: "(int \<times> real) list \<Rightarrow> int list \<Rightarrow> (int \<times> real) list" where
  "select chunk ix = concat (map (\<lambda>t. filter (\<lambda>(t', x). t' = t) chunk) ix)"

text \<open>Lines 103 to 114, on the two filled series: the batches handed to \<open>fit\<close>.\<close>

definition train_batches ::
  "int \<Rightarrow> (int \<times> real) list \<Rightarrow> (int \<times> real) list
     \<Rightarrow> error + (real list list \<times> real list list)" where
  "train_batches s mainchunk meterchunk =
     (let ix = index_intersection (map fst mainchunk) (map fst meterchunk);
          mainchunk' = select mainchunk ix;
          meterchunk' = select meterchunk ix
      in case additional s (length ix) of
           Inl e \<Rightarrow> Inl e
         | Inr a \<Rightarrow>
            (case np_zeros a of
               Inl e \<Rightarrow> Inl e
             | Inr z \<Rightarrow>
                (let X_batch = np_append (map snd mainchunk') z;
                     Y_batch = np_append (map snd meterchunk') z
                 in case np_reshape X_batch (py_int (py_truediv (length X_batch) s)) s of
                      Inl e \<Rightarrow> Inl e
                    | Inr X \<Rightarrow>
                       (case np_reshape Y_batch (py_int (py_truediv (length Y_batch) s)) s of
                          Inl e \<Rightarrow> Inl e
                        | Inr Y \<Rightarrow> Inr (X, Y)))))"

text \<open>
  Lines 96 to 116. Both series are filled in place, then the batches are built and the
  network is fitted; \<open>fit\<close> returns the network after the call and the error it raised,
  if any.
\<close>

definition train_on_chunk ::
  "('m \<Rightarrow> real list list \<Rightarrow> real list list \<Rightarrow> nat \<Rightarrow> nat \<Rightarrow> error option \<times> 'm)
     \<Rightarrow> 'm dae \<Rightarrow> store \<Rightarrow> nat \<Rightarrow> nat \<Rightarrow> nat \<Rightarrow> nat \<Rightarrow> error option \<times> 'm dae \<times> store" where
  "train_on_chunk fit self h mainchunk meterchunk epochs batch_size =
     (let s = sequence_length self;
          h1 = fillna_inplace h mainchunk;
          h2 = fillna_inplace h1 meterchunk
      in case train_batches s (fillna (data (cells h2 mainchunk)))
                (fillna (data (cells h2 meterchunk))) of
           Inl e \<Rightarrow> (Some e, self, h2)
         | Inr (X_batch, Y_batch) \<Rightarrow>
            (case fit (model self) X_batch Y_batch batch_size epochs of
               (err, m) \<Rightarrow> (err, self\<lparr>model := m\<rparr>, h2)))"

subsection \<open>\<open>train\<close>\<close>

text \<open>
  \<open>chunk.max()\<close> skips missing values and is NaN when no value is present.
\<close>

definition series_max :: "rows \<Rightarrow> fval" where
  "series_max chunk =
     (case List.map_filter snd chunk of [] \<Rightarrow> None | x # xs \<Rightarrow> Some (fold max xs x))"

text \<open>
  The instance, the store of series objects and the output data store make up the
  state that the methods read and write. The two generators of \<open>train\<close> are the lists of
  the chunks they yield.
\<close>

record 'm world =
  disaggregator :: "'m dae"
  heap :: store
  output_datastore :: "((int \<times> int) \<times> (string \<times> string) \<times> rows) list"
  output_metadata :: "(int \<times> (string \<times> string) \<times> (int \<times> int) list \<times> int \<times> int list) list"

text \<open>
  Lines 76 to 79, one pass through the body of \<open>while(run)\<close>: both chunks are
  normalised, which makes two new series, and \<open>train_on_chunk\<close> is called on these.
\<close>

definition train_step ::
  "('m \<Rightarrow> real list list \<Rightarrow> real list list \<Rightarrow> nat \<Rightarrow> nat \<Rightarrow> error option \<times> 'm)
     \<Rightarrow> nat \<Rightarrow> nat \<Rightarrow> nat \<Rightarrow> nat \<Rightarrow> 'm world \<Rightarrow> error option \<times> 'm world" where
  "train_step fit mainchunk meterchunk epochs batch_size w =
     (case normalize_chunk (data (cells (heap w) mainchunk)) (mmax (disaggregator w)) of
        Inl e \<Rightarrow> (Some e, w)
      | Inr nmain \<Rightarrow>
         (case alloc (heap w) ((cells (heap w) mainchunk)\<lparr>data := nmain, timeframe := None\<rparr>) of
            (mainchunk', h1) \<Rightarrow>
              (case normalize_chunk (data (cells h1 meterchunk)) (mmax (disaggregator w)) of
                 Inl e \<Rightarrow> (Some e, w\<lparr>heap := h1\<rparr>)
               | Inr nmeter \<Rightarrow>
                  (case alloc h1 ((cells h1 meterchunk)\<lparr>data := nmeter, timeframe := None\<rparr>) of
                     (meterchunk', h2) \<Rightarrow>
                       (case train_on_chunk fit (disaggregator w) h2 mainchunk' meterchunk'
                               epochs batch_size of
                          (err, self', h3) \<Rightarrow> (err, w\<lparr>disaggregator := self', heap := h3\<rparr>))))))"

text \<open>
  The loop \<open>while(run)\<close>, lines 75 to 84, entered with the current pair of chunks and
  the chunks the generators have not yielded yet. An exception of the body leaves the
  loop; the loop ends when either generator is exhausted.
\<close>

fun train_loop ::
  "('m \<Rightarrow> real list list \<Rightarrow> real list list \<Rightarrow> nat \<Rightarrow> nat \<Rightarrow> error option \<times> 'm)
     \<Rightarrow> nat \<Rightarrow> nat \<Rightarrow> nat list \<Rightarrow> nat list \<Rightarrow> nat \<Rightarrow> nat \<Rightarrow> 'm world \<Rightarrow> error option \<times> 'm world" where
  "train_loop fit mainchunk meterchunk main_power_series meter_power_series epochs batch_size w =
     (case train_step fit mainchunk meterchunk epochs batch_size w of
        (Some e, w') \<Rightarrow> (Some e, w')
      | (None, w') \<Rightarrow>
         (case main_power_series of
            [] \<Rightarrow> (None, w')
          | m # ms \<Rightarrow>
             (case meter_power_series of
                [] \<Rightarrow> (None, w')
              | t # ts \<Rightarrow> train_loop fit m t ms ts epochs batch_size w')))"

text \<open>Lines 65 to 84: \<open>next\<close> on an exhausted generator raises StopIteration.\<close>

definition train ::
  "('m \<Rightarrow> real list list \<Rightarrow> real list list \<Rightarrow> nat \<Rightarrow> nat \<Rightarrow> error option \<times> 'm)
     \<Rightarrow> nat list \<Rightarrow> nat list \<Rightarrow> nat \<Rightarrow> nat \<Rightarrow> 'm world \<Rightarrow> error option \<times> 'm world" where
  "train fit main_power_series meter_power_series epochs batch_size w =
     (case main_power_series of
        [] \<Rightarrow> (Some StopIteration, w)
      | mainchunk # ms \<Rightarrow>
         (case meter_power_series of
            [] \<Rightarrow> (Some StopIteration, w)
          | meterchunk # ts \<Rightarrow>
             (let w1 = (if mmax (disaggregator w) = None
                        then w\<lparr>disaggregator := (disaggregator w)\<lparr>mmax :=
                               Some (series_max (data (cells (heap w) mainchunk)))\<rparr>\<rparr>
                        else w)
              in train_loop fit mainchunk meterchunk ms ts epochs batch_size w1)))"

subsection \<open>\<open>disaggregate\<close>\<close>

text \<open>
  Line 150, \<open>appliance_power[appliance_power < 0] = 0\<close>: a value below 0 becomes 0.
  The comparison is false for NaN, so a NaN stays.
\<close>

definition clip :: "rows \<Rightarrow> rows" where
  "clip appliance_power =
     map (\<lambda>(t, v). (t, case v of None \<Rightarrow> None | Some x \<Rightarrow> Some (if x < 0 then 0 else x)))
       appliance_power"

text \<open>The local variables that the loop of \<open>disaggregate\<close> updates.\<close>

record locals =
  timeframes :: "(int \<times> int) list"
  data_is_available :: bool
  measurement :: "(string \<times> string) option"

text \<open>
  One pass through the body of the \<open>for\<close> loop, lines 141 to 165, for one chunk, with
  the method called on line 149 as the parameter \<open>dchunk\<close>: Python looks
  \<open>self.disaggregate_chunk\<close> up on the instance when the call is made. A key of the
  output data store is the building and the meter number of its path
  \<open>/building{}/elec/meter{}\<close>; the mains are meter 1. A table appended to the store is
  its key, its column and its rows.
\<close>

definition disaggregate_body ::
  "('m dae \<Rightarrow> store \<Rightarrow> nat \<Rightarrow> (error + rows) \<times> store) \<Rightarrow> int \<Rightarrow> nat \<Rightarrow> locals \<Rightarrow> 'm world
     \<Rightarrow> error option \<times> locals \<times> 'm world" where
  "disaggregate_body dchunk building chunk l w =
     (if int (length (data (cells (heap w) chunk))) < MIN_CHUNK_LENGTH (disaggregator w)
      then (None, l, w)
      else
        (case timeframe (cells (heap w) chunk) of
           None \<Rightarrow> (Some AttributeError, l, w)
         | Some tf \<Rightarrow>
            (let l1 = l\<lparr>timeframes := timeframes l @ [tf],
                       measurement := Some (name (cells (heap w) chunk))\<rparr>
             in case normalize_chunk (data (cells (heap w) chunk)) (mmax (disaggregator w)) of
                  Inl e \<Rightarrow> (Some e, l1, w)
                | Inr n \<Rightarrow>
                   (case alloc (heap w) ((cells (heap w) chunk)\<lparr>data := n, timeframe := None\<rparr>) of
                      (chunk2, h1) \<Rightarrow>
                        (case dchunk (disaggregator w) h1 chunk2 of
                           (Inl e, h2) \<Rightarrow> (Some e, l1, w\<lparr>heap := h2\<rparr>)
                         | (Inr appliance_power, h2) \<Rightarrow>
                            (case denormalize_chunk (clip appliance_power)
                                    (mmax (disaggregator w)) of
                               Inl e \<Rightarrow> (Some e, l1, w\<lparr>heap := h2\<rparr>)
                             | Inr appliance_power' \<Rightarrow>
                                (None, l1\<lparr>data_is_available := True\<rparr>,
                                 w\<lparr>heap := h2,
                                   output_datastore := output_datastore w
                                     @ [((building, meter_metadata (disaggregator w)),
                                         name (cells h2 chunk), appliance_power'),
                                        ((building, 1),
                                         name (cells h2 chunk), data (cells h2 chunk))]\<rparr>)))))))"

text \<open>The pass with the method of the class, \<open>disaggregate_chunk\<close>.\<close>

definition disaggregate_step ::
  "('m \<Rightarrow> real list list \<Rightarrow> error + fval list list) \<Rightarrow> int \<Rightarrow> nat \<Rightarrow> locals \<Rightarrow> 'm world
     \<Rightarrow> error option \<times> locals \<times> 'm world" where
  "disaggregate_step predict building chunk l w =
     disaggregate_body (disaggregate_chunk predict) building chunk l w"

text \<open>
  The \<open>for\<close> loop, lines 140 to 165, over the chunks that \<open>mains.power_series\<close> yields;
  an exception leaves it.
\<close>

fun disaggregate_loop ::
  "('m \<Rightarrow> real list list \<Rightarrow> error + fval list list) \<Rightarrow> int \<Rightarrow> nat list \<Rightarrow> locals \<Rightarrow> 'm world
     \<Rightarrow> error option \<times> locals \<times> 'm world" where
  "disaggregate_loop predict building [] l w = (None, l, w)"
| "disaggregate_loop predict building (chunk # rest) l w =
     (case disaggregate_step predict building chunk l w of
        (Some e, l', w') \<Rightarrow> (Some e, l', w')
      | (None, l', w') \<Rightarrow> disaggregate_loop predict building rest l' w')"

text \<open>
  Lines 130 to 176. \<open>_pre_disaggregation_checks\<close> belongs to nilmtk and hands the
  keyword arguments back; \<open>sample_period\<close> defaults to 60. The metadata are saved when at
  least one chunk was processed.
\<close>

definition disaggregate ::
  "('m \<Rightarrow> real list list \<Rightarrow> error + fval list list) \<Rightarrow> nat list \<Rightarrow> int \<Rightarrow> int option
     \<Rightarrow> 'm world \<Rightarrow> error option \<times> 'm world" where
  "disaggregate predict mains building sample_period w =
     (let period = (case sample_period of None \<Rightarrow> 60 | Some p \<Rightarrow> p)
      in case disaggregate_loop predict building mains
                \<lparr>timeframes = [], data_is_available = False, measurement = None\<rparr> w of
           (Some e, l, w') \<Rightarrow> (Some e, w')
         | (None, l, w') \<Rightarrow>
            (if data_is_available l
             then (case measurement l of
                     None \<Rightarrow> (Some UnboundLocalError, w')
                   | Some m \<Rightarrow>
                      (None, w'\<lparr>output_metadata := output_metadata w'
                                  @ [(period, m, timeframes l, building,
                                      [meter_metadata (disaggregator w')])]\<rparr>))
             else (None, w')))"

subsection \<open>\<open>import_model\<close>\<close>

text \<open>
  Lines 218 to 221. \<open>load_model\<close> is Keras's loader; \<open>h5py_File\<close> opens the file and
  gives its groups, each a table of named data sets. \<open>get\<close> returns \<open>None\<close> for a
  missing name: \<open>None.get\<close> raises AttributeError, and \<open>np.array(None)[0]\<close>, like the
  first element of an empty data set, raises IndexError.
\<close>

definition import_model ::
  "(string \<Rightarrow> error + 'm) \<Rightarrow> (string \<Rightarrow> error + (string \<times> (string \<times> fval list) list) list)
     \<Rightarrow> string \<Rightarrow> 'm dae \<Rightarrow> error option \<times> 'm dae" where
  "import_model load_model h5py_File filename self =
     (case load_model filename of
        Inl e \<Rightarrow> (Some e, self)
      | Inr m \<Rightarrow>
         (let self1 = self\<lparr>model := m\<rparr>
          in case h5py_File filename of
               Inl e \<Rightarrow> (Some e, self1)
             | Inr hf \<Rightarrow>
                (case map_of hf ''disaggregator-data'' of
                   None \<Rightarrow> (Some AttributeError, self1)
                 | Some gr \<Rightarrow>
                    (case map_of gr ''mmax'' of
                       None \<Rightarrow> (Some IndexError, self1)
                     | Some ds \<Rightarrow>
                        (case ds of
                           [] \<Rightarrow> (Some IndexError, self1)
                         | x # xs \<Rightarrow> (None, self1\<lparr>mmax := Some x\<rparr>))))))"

subsection \<open>Notions used to state the properties\<close>

text \<open>
  The value a series holds at a time stamp, with a missing value read as 0 (step 1 of
  the windower of the specification).
\<close>

definition filled_at :: "rows \<Rightarrow> int \<Rightarrow> real" where
  "filled_at chunk t = (case map_of chunk t of Some (Some x) \<Rightarrow> x | _ \<Rightarrow> 0)"

text \<open>
  Step 4 of the windower of the specification: window \<open>i\<close> covers the samples
  \<open>[i * s, (i + 1) * s)\<close> of the padded sequence.
\<close>

definition windows_of :: "nat \<Rightarrow> real list \<Rightarrow> real list list" where
  "windows_of s padded = map (\<lambda>i. take s (drop (i * s) padded)) [0..<length padded div s]"

text \<open>
  Two series over the same index whose values agree up to the two roundings of a
  division followed by a multiplication in binary64: a relative error of at most
  \<open>2 / 2^53 + 1 / 2^106\<close>, a missing value against a missing value.
\<close>

definition within_rounding :: "rows \<Rightarrow> rows \<Rightarrow> bool" where
  "within_rounding x z =
     list_all2 (\<lambda>(t, v) (t', v'). t' = t \<and>
        (case v of
           None \<Rightarrow> v' = None
         | Some a \<Rightarrow>
            (case v' of
               None \<Rightarrow> False
             | Some b \<Rightarrow> \<bar>b - a\<bar> \<le> (2 / 2 ^ 53 + 1 / 2 ^ 106) * \<bar>a\<bar>))) x z"

text \<open>
  A caller's calls of \<open>train\<close> and \<open>disaggregate\<close> on one instance, in order. An
  exception ends the call that raised it and leaves the state as it was at that moment.
\<close>

datatype call =
    Train "nat list" "nat list" nat nat
  | Disaggregate "nat list" int "int option"

fun run_call ::
  "('m \<Rightarrow> real list list \<Rightarrow> real list list \<Rightarrow> nat \<Rightarrow> nat \<Rightarrow> error option \<times> 'm)
     \<Rightarrow> ('m \<Rightarrow> real list list \<Rightarrow> error + fval list list) \<Rightarrow> call \<Rightarrow> 'm world \<Rightarrow> 'm world" where
  "run_call fit predict (Train mains meter epochs batch_size) w =
     snd (train fit mains meter epochs batch_size w)"
| "run_call fit predict (Disaggregate mains building sample_period) w =
     snd (disaggregate predict mains building sample_period w)"

fun run_calls ::
  "('m \<Rightarrow> real list list \<Rightarrow> real list list \<Rightarrow> nat \<Rightarrow> nat \<Rightarrow> error option \<times> 'm)
     \<Rightarrow> ('m \<Rightarrow> real list list \<Rightarrow> error + fval list list) \<Rightarrow> call list \<Rightarrow> 'm world \<Rightarrow> 'm world" where
  "run_calls fit predict [] w = w"
| "run_calls fit predict (c # cs) w = run_calls fit predict cs (run_call fit predict c w)"

text \<open>
  An artifact lacks the scale metadata when the group \<open>disaggregator-data\<close> or its data
  set \<open>mmax\<close> is not in the file, or the data set holds no element.
\<close>

definition lacks_mmax :: "(string \<times> (string \<times> fval list) list) list \<Rightarrow> bool" where
  "lacks_mmax hf =
     (case map_of hf ''disaggregator-data'' of
        None \<Rightarrow> True
      | Some gr \<Rightarrow> (case map_of gr ''mmax'' of None \<Rightarrow> True | Some ds \<Rightarrow> ds = []))"

section \<open>Properties\<close>

subsection \<open>Padding and reshaping\<close>

lemma pad_bounds:
  assumes "0 < s"
  shows "1 \<le> s - int n mod s" and "s - int n mod s \<le> s"
    and "(int n + (s - int n mod s)) mod s = 0"
proof -
  have lt: "int n mod s < s" using assms by simp
  have ge: "0 \<le> int n mod s" using assms by simp
  show "1 \<le> s - int n mod s" using lt by linarith
  show "s - int n mod s \<le> s" using ge by linarith
  have "(int n - int n mod s) mod s = 0"
    by (simp add: minus_mod_eq_mult_div)
  moreover have "int n + (s - int n mod s) = (int n - int n mod s) + s" by simp
  ultimately show "(int n + (s - int n mod s)) mod s = 0"
    by (metis mod_add_self2)
qed

lemma pad_total: "int n + (s - int n mod s) = (int n div s + 1) * s"
  by (simp add: algebra_simps minus_mod_eq_mult_div)

lemma additional_pos: "0 < s \<Longrightarrow> additional s n = Inr (s - int n mod s)"
  by (simp add: additional_def)

lemma np_zeros_pad:
  "0 < s \<Longrightarrow> np_zeros (s - int n mod s) = Inr (replicate (nat (s - int n mod s)) 0)"
  using pad_bounds(1) [of s n] by (simp add: np_zeros_def)

lemma count_nonneg:
  assumes "0 < s" and "int k = c * s"
  shows "0 \<le> c"
proof (rule ccontr)
  assume "\<not> 0 \<le> c"
  then have "c * s < 0" using assms(1) by (simp add: mult_neg_pos)
  then show False using assms(2) by linarith
qed

lemma reshape_windows_of:
  assumes "0 < s" and "int (length xs) = c * s"
  shows "np_reshape xs (py_int (py_truediv (length xs) s)) s = Inr (windows_of (nat s) xs)"
proof -
  have c0: "0 \<le> c" using count_nonneg [OF assms] .
  have "real (length xs) = real_of_int c * real_of_int s"
    using assms(2) by (metis of_int_mult of_int_of_nat_eq)
  then have q: "real (length xs) / real_of_int s = real_of_int c"
    using assms(1) by simp
  have "length xs = nat c * nat s"
    using assms c0 by (metis nat_int nat_mult_distrib)
  then have "length xs div nat s = nat c" using assms(1) by simp
  then show ?thesis using assms c0 q
    by (simp add: py_int_def py_truediv_def np_reshape_def windows_of_def)
qed

lemma reshape_float: "np_reshape xs (py_truediv n s) s = Inl TypeError"
  by (simp add: py_truediv_def np_reshape_def)

lemma windows_of_step:
  assumes "0 < s" and "length xs = Suc c * s"
  shows "windows_of s xs = take s xs # windows_of s (drop s xs)"
proof -
  have len: "length (drop s xs) = c * s" using assms by simp
  have d: "length xs div s = Suc c" using assms by simp
  have "map (\<lambda>i. take s (drop (i * s) xs)) [Suc 0..<Suc c]
          = map (\<lambda>i. take s (drop (i * s) xs)) (map Suc [0..<c])"
    by (simp only: map_Suc_upt)
  also have "\<dots> = map (\<lambda>i. take s (drop (i * s) (drop s xs))) [0..<c]"
    by (simp add: add.commute)
  finally show ?thesis
    using len assms(1) by (simp add: windows_of_def d upt_conv_Cons del: upt_Suc)
qed

lemma concat_windows_of:
  "0 < s \<Longrightarrow> length xs = c * s \<Longrightarrow> concat (windows_of s xs) = xs"
proof (induction c arbitrary: xs)
  case 0
  then show ?case by (simp add: windows_of_def)
next
  case (Suc c)
  have len: "length (drop s xs) = c * s" using Suc.prems by simp
  show ?case
    using windows_of_step [OF Suc.prems] Suc.IH [OF Suc.prems(1) len] by simp
qed

lemma length_windows_of: "length (windows_of s xs) = length xs div s"
  by (simp add: windows_of_def)

lemma window_length:
  assumes "0 < s" and "length xs = c * s" and "w \<in> set (windows_of s xs)"
  shows "length w = s"
proof -
  obtain i where i: "i < c" and w: "w = take s (drop (i * s) xs)"
    using assms by (auto simp: windows_of_def)
  have "Suc i * s \<le> c * s" using i by (simp only: mult_le_mono1 Suc_leI)
  then have "s \<le> length xs - i * s" using assms(2) by simp
  then show ?thesis using w by simp
qed

text \<open>
  The padded length is a whole number of windows: \<open>n + pad = (n div s + 1) * s\<close>.
\<close>

lemma padded_length:
  assumes "0 < s" and "length z = nat (s - int (length xs) mod s)"
  shows "int (length (xs @ z)) = (int (length xs) div s + 1) * s"
proof -
  have "int (length z) = s - int (length xs) mod s"
    using assms pad_bounds(1) [OF assms(1), of "length xs"] by simp
  then show ?thesis using pad_total [of "length xs" s] by simp
qed

text \<open>
  C10. For every length and every window size \<open>s > 0\<close>, the padding amount lies between
  1 and \<open>s\<close>, the padded length is a multiple of \<open>s\<close>, and the reshape of the padded
  sequence done by \<open>train_on_chunk\<close> succeeds with windows of exactly \<open>s\<close> elements, so
  no partial window is needed.
\<close>

theorem padding_gives_whole_windows:
  assumes "0 < s"
  shows "\<exists>pad z X. additional s (length xs) = Inr pad \<and> 1 \<le> pad \<and> pad \<le> s
           \<and> (int (length xs) + pad) mod s = 0
           \<and> np_zeros pad = Inr z \<and> length z = nat pad
           \<and> np_reshape (np_append xs z) (py_int (py_truediv (length (np_append xs z)) s)) s = Inr X
           \<and> list_all (\<lambda>w. length w = nat s) X"
proof -
  let ?pad = "s - int (length xs) mod s"
  let ?z = "replicate (nat ?pad) (0::real)"
  have len: "int (length (xs @ ?z)) = (int (length xs) div s + 1) * s"
    by (rule padded_length [OF assms]) simp
  have c0: "0 \<le> int (length xs) div s + 1"
    using count_nonneg [OF assms len] .
  have natlen: "length (xs @ ?z) = nat (int (length xs) div s + 1) * nat s"
    using len c0 assms by (metis nat_int nat_mult_distrib)
  have r: "np_reshape (np_append xs ?z) (py_int (py_truediv (length (np_append xs ?z)) s)) s
             = Inr (windows_of (nat s) (xs @ ?z))"
    unfolding np_append_def by (rule reshape_windows_of [OF assms len])
  have spos: "0 < nat s" using assms by simp
  have "\<forall>w \<in> set (windows_of (nat s) (xs @ ?z)). length w = nat s"
    using window_length [OF spos natlen] by blast
  then have all: "list_all (\<lambda>w. length w = nat s) (windows_of (nat s) (xs @ ?z))"
    by (simp only: list_all_iff)
  have a: "additional s (length xs) = Inr ?pad"
    by (rule additional_pos [OF assms])
  have z: "np_zeros ?pad = Inr ?z"
    by (rule np_zeros_pad [OF assms])
  have lz: "length ?z = nat ?pad" by simp
  show ?thesis
    by (rule exI [of _ ?pad], rule exI [of _ ?z],
        rule exI [of _ "windows_of (nat s) (xs @ ?z)"])
       (intro conjI a z lz r all pad_bounds [OF assms])
qed

theorem padding_gives_whole_windows_witness:
  "\<exists>pad z X. additional 2 (length [10, 20, 30, 40 :: real]) = Inr pad \<and> 1 \<le> pad \<and> pad \<le> 2
     \<and> (int (length [10, 20, 30, 40 :: real]) + pad) mod 2 = 0
     \<and> np_zeros pad = Inr z \<and> length z = nat pad
     \<and> np_reshape (np_append [10, 20, 30, 40] z)
          (py_int (py_truediv (length (np_append [10, 20, 30, 40] z)) 2)) 2 = Inr X
     \<and> list_all (\<lambda>w. length w = nat 2) X"
proof -
  have h: "(0::int) < 2" by simp
  show ?thesis using padding_gives_whole_windows [OF h, of "[10, 20, 30, 40]"] .
qed

subsection \<open>Normalisation\<close>

lemma scale_roundtrip:
  "(m::real) \<noteq> 0 \<Longrightarrow> map_option (\<lambda>x. x * m) (map_option (\<lambda>x. x / m) v) = v"
  by (cases v) simp_all

text \<open>
  Over exact arithmetic, \<open>_normalize\<close> by a scale \<open>m > 0\<close> followed by
  \<open>_denormalize\<close> by the same scale gives the series back, element by element (a
  missing value stays missing).
\<close>

lemma denormalize_normalize:
  assumes "0 < m"
  shows "normalize_chunk x (Some (Some m)) = Inr (map (\<lambda>(t, v). (t, map_option (\<lambda>a. a / m) v)) x)
         \<and> denormalize_chunk (map (\<lambda>(t, v). (t, map_option (\<lambda>a. a / m) v)) x) (Some (Some m)) = Inr x"
proof -
  have m: "m \<noteq> 0" using assms by simp
  have "map ((\<lambda>(t, v). (t, map_option (\<lambda>a. a * m) v)) \<circ> (\<lambda>(t, v). (t, map_option (\<lambda>a. a / m) v))) x
          = map id x"
    by (rule map_cong [OF refl]) (auto simp: scale_roundtrip [OF m])
  then show ?thesis using m by (simp add: normalize_chunk_def denormalize_chunk_def)
qed

lemma denormalize_normalize_example:
  "normalize_chunk [(1, Some 10), (2, None), (3, Some 30)] (Some (Some 4))
     = Inr [(1, Some (5 / 2)), (2, None), (3, Some (15 / 2))]
   \<and> denormalize_chunk [(1, Some (5 / 2)), (2, None), (3, Some (15 / 2))] (Some (Some 4))
     = Inr [(1, Some 10), (2, None), (3, Some 30)]"
proof -
  have h: "(0::real) < 4" by simp
  show ?thesis
    using denormalize_normalize [OF h, of "[(1, Some 10), (2, None), (3, Some 30)]"] by simp
qed

subsection \<open>Rounding\<close>

lemma round_half_even_error: "\<bar>of_int (round_half_even z) - z\<bar> \<le> 1 / 2"
proof -
  have "of_int \<lfloor>z\<rfloor> \<le> z" and "z < of_int \<lfloor>z\<rfloor> + 1" by linarith+
  then show ?thesis by (auto simp: round_half_even_def)
qed

lemma round_half_even_eq:
  assumes "of_int k \<le> z" and "z < of_int k + 1 / 2"
  shows "round_half_even z = k"
proof -
  have "\<lfloor>z\<rfloor> = k" using assms by linarith
  then show ?thesis using assms(2) by (simp add: round_half_even_def)
qed

lemma binary64_error: "\<bar>binary64 y - y\<bar> \<le> \<bar>y\<bar> / 2 ^ 53"
proof (cases "y = 0")
  case True
  then show ?thesis by (simp add: binary64_def)
next
  case False
  define e where "e = \<lfloor>log 2 \<bar>y\<bar>\<rfloor>"
  define ulp where "ulp = (2::real) powr (of_int e - 52)"
  have pos: "0 < ulp" by (simp add: ulp_def)
  have "of_int e \<le> log 2 \<bar>y\<bar>" by (simp add: e_def)
  then have low: "2 powr of_int e \<le> \<bar>y\<bar>"
    using False by (simp add: le_log_iff)
  have ulp: "ulp = 2 powr of_int e / 2 ^ 52"
    by (simp add: ulp_def powr_diff)
  have b: "binary64 y = of_int (round_half_even (y / ulp)) * ulp"
    using False by (simp add: binary64_def e_def ulp_def)
  have "\<bar>binary64 y - y\<bar> = \<bar>of_int (round_half_even (y / ulp)) - y / ulp\<bar> * ulp"
  proof -
    have "binary64 y - y = (of_int (round_half_even (y / ulp)) - y / ulp) * ulp"
      using pos by (simp add: b algebra_simps)
    then show ?thesis using pos by (simp add: abs_mult)
  qed
  also have "\<dots> \<le> 1 / 2 * ulp"
    using round_half_even_error [of "y / ulp"] pos by (simp add: mult_right_mono)
  also have "\<dots> = 2 powr of_int e / 2 ^ 53" by (simp add: ulp)
  also have "\<dots> \<le> \<bar>y\<bar> / 2 ^ 53" using low by (simp add: divide_right_mono)
  finally show ?thesis .
qed

lemma two_roundings:
  assumes "0 < m"
  shows "\<bar>binary64 (binary64 (a / m) * m) - a\<bar> \<le> (2 / 2 ^ 53 + 1 / 2 ^ 106) * \<bar>a\<bar>"
proof -
  define u :: real where "u = 1 / 2 ^ 53"
  define q where "q = binary64 (a / m)"
  define b where "b = binary64 (q * m)"
  have u0: "0 \<le> u" by (simp add: u_def)
  have uu: "u * u = 1 / 2 ^ 106" by (simp add: u_def)
  have e0: "\<bar>q - a / m\<bar> \<le> \<bar>a / m\<bar> * u"
    using binary64_error [of "a / m"] by (simp add: q_def u_def)
  have "\<bar>q - a / m\<bar> * m \<le> \<bar>a / m\<bar> * u * m"
    by (rule mult_right_mono [OF e0]) (use assms in simp)
  moreover have "\<bar>q - a / m\<bar> * m = \<bar>q * m - a\<bar>"
  proof -
    have "(q - a / m) * m = q * m - a" using assms by (simp add: algebra_simps)
    then have "\<bar>q * m - a\<bar> = \<bar>q - a / m\<bar> * \<bar>m\<bar>" by (metis abs_mult)
    then show ?thesis using assms by simp
  qed
  moreover have "\<bar>a / m\<bar> * u * m = u * \<bar>a\<bar>" using assms by simp
  ultimately have e1: "\<bar>q * m - a\<bar> \<le> u * \<bar>a\<bar>" by simp
  have e2: "\<bar>b - q * m\<bar> \<le> u * \<bar>q * m\<bar>"
    using binary64_error [of "q * m"] by (simp add: b_def u_def)
  have "\<bar>q * m\<bar> \<le> \<bar>a\<bar> + u * \<bar>a\<bar>" using e1 by linarith
  then have "u * \<bar>q * m\<bar> \<le> u * (\<bar>a\<bar> + u * \<bar>a\<bar>)"
    using u0 by (rule mult_left_mono)
  then have "\<bar>b - q * m\<bar> \<le> u * \<bar>a\<bar> + u * u * \<bar>a\<bar>"
    using e2 by (simp add: algebra_simps)
  then have "\<bar>b - a\<bar> \<le> 2 * u * \<bar>a\<bar> + u * u * \<bar>a\<bar>" using e1 by linarith
  then show ?thesis by (simp add: b_def q_def uu u_def algebra_simps)
qed

lemma floor_log2_eq:
  assumes "0 < x" and "2 powr of_int k \<le> x" and "x < 2 powr (of_int k + 1)"
  shows "\<lfloor>log 2 x\<rfloor> = k"
proof -
  have "of_int k \<le> log 2 x" using assms(1,2) by (simp add: le_log_iff)
  moreover have "log 2 x < of_int k + 1" using assms(1,3) by (simp add: log_less_iff)
  ultimately show ?thesis by linarith
qed

lemma binary64_of_49th: "binary64 (1 / 49) = 5882252574524729 / 2 ^ 58"
proof -
  have e: "\<lfloor>log 2 \<bar>1 / 49 :: real\<bar>\<rfloor> = - 6"
  proof (rule floor_log2_eq)
    show "0 < \<bar>1 / 49 :: real\<bar>" by simp
    show "2 powr of_int (- 6) \<le> \<bar>1 / 49 :: real\<bar>" by (simp add: powr_neg_numeral)
    show "\<bar>1 / 49 :: real\<bar> < 2 powr (of_int (- 6) + 1)" by (simp add: powr_neg_numeral)
  qed
  have u: "(2::real) powr (of_int (- 6) - 52) = 1 / 2 ^ 58"
    by (simp add: powr_neg_numeral)
  have r: "round_half_even (1 / 49 / (1 / 2 ^ 58)) = 5882252574524729"
    by (rule round_half_even_eq) simp_all
  show ?thesis
    by (simp only: binary64_def e u r) simp
qed

lemma binary64_times_49: "binary64 (5882252574524729 / 2 ^ 58 * 49) = 1 - 1 / 2 ^ 53"
proof -
  have e: "\<lfloor>log 2 \<bar>5882252574524729 / 2 ^ 58 * 49 :: real\<bar>\<rfloor> = - 1"
  proof (rule floor_log2_eq)
    show "0 < \<bar>5882252574524729 / 2 ^ 58 * 49 :: real\<bar>" by simp
    show "2 powr of_int (- 1) \<le> \<bar>5882252574524729 / 2 ^ 58 * 49 :: real\<bar>"
      by (simp add: powr_neg_numeral)
    show "\<bar>5882252574524729 / 2 ^ 58 * 49 :: real\<bar> < 2 powr (of_int (- 1) + 1)"
      by (simp add: powr_neg_numeral)
  qed
  have u: "(2::real) powr (of_int (- 1) - 52) = 1 / 2 ^ 53"
    by (simp add: powr_neg_numeral)
  have r: "round_half_even (5882252574524729 / 2 ^ 58 * 49 / (1 / 2 ^ 53)) = 9007199254740991"
    by (rule round_half_even_eq) simp_all
  show ?thesis
    by (simp only: binary64_def e u r) simp
qed

text \<open>
  C3 as stated fails in floating point: for the series holding 1 and the scale 49,
  \<open>1 / 49\<close> rounds to \<open>5882252574524729 / 2^58\<close>, and that times 49 rounds to
  \<open>1 - 1 / 2^53\<close>, which is not 1.
\<close>

theorem binary64_round_trip_not_exact:
  "normalize_binary64 [(0, Some 1)] (Some (Some 49))
     = Inr [(0, Some (5882252574524729 / 2 ^ 58))]
   \<and> denormalize_binary64 [(0, Some (5882252574524729 / 2 ^ 58))] (Some (Some 49))
       = Inr [(0, Some (1 - 1 / 2 ^ 53))]
   \<and> [(0::int, Some (1 - 1 / 2 ^ 53))] \<noteq> [(0, Some (1::real))]"
proof -
  have "binary64 (288230376151711721 / 288230376151711744) = 1 - 1 / 2 ^ 53"
    using binary64_times_49 by simp
  then show ?thesis
    by (simp add: normalize_binary64_def denormalize_binary64_def binary64_of_49th)
qed

text \<open>
  C3, amended. For every series and every scale \<open>m > 0\<close>, \<open>_denormalize\<close> of
  \<open>_normalize\<close> is the series again in exact arithmetic; in binary64 every element of
  the result is within a relative error of \<open>2 / 2^53 + 1 / 2^106\<close> of the element it
  comes from, and a missing value stays missing (overflow and underflow aside).
\<close>

theorem round_trip_up_to_rounding:
  assumes "0 < m"
  shows "(\<exists>y. normalize_chunk x (Some (Some m)) = Inr y
             \<and> denormalize_chunk y (Some (Some m)) = Inr x)
         \<and> (\<exists>y z. normalize_binary64 x (Some (Some m)) = Inr y
               \<and> denormalize_binary64 y (Some (Some m)) = Inr z
               \<and> within_rounding x z)"
proof (intro conjI)
  show "\<exists>y. normalize_chunk x (Some (Some m)) = Inr y
             \<and> denormalize_chunk y (Some (Some m)) = Inr x"
    using denormalize_normalize [OF assms, of x] by blast
  let ?y = "map (\<lambda>(t, v). (t, map_option (\<lambda>a. binary64 (a / m)) v)) x"
  let ?f = "\<lambda>(t::int, v). (t, map_option (\<lambda>a. binary64 (binary64 (a / m) * m)) v)"
  have m0: "m \<noteq> 0" using assms by simp
  have n: "normalize_binary64 x (Some (Some m)) = Inr ?y"
    using m0 by (simp add: normalize_binary64_def)
  have d: "denormalize_binary64 ?y (Some (Some m)) = Inr (map ?f x)"
    by (simp add: denormalize_binary64_def split_def option.map_comp comp_def)
  have "\<forall>p \<in> set x. (case p of (t, v) \<Rightarrow> \<lambda>(t', v'). t' = t \<and>
          (case v of None \<Rightarrow> v' = None
           | Some a \<Rightarrow> (case v' of None \<Rightarrow> False
               | Some b \<Rightarrow> \<bar>b - a\<bar> \<le> (2 / 2 ^ 53 + 1 / 2 ^ 106) * \<bar>a\<bar>))) (?f p)"
    using two_roundings [OF assms] by (auto split: option.splits)
  then have w: "within_rounding x (map ?f x)"
    unfolding within_rounding_def by (simp add: list_all2_map2 list_all2_same)
  show "\<exists>y z. normalize_binary64 x (Some (Some m)) = Inr y
               \<and> denormalize_binary64 y (Some (Some m)) = Inr z
               \<and> within_rounding x z"
    using n d w by blast
qed

theorem round_trip_up_to_rounding_witness:
  "(\<exists>y. normalize_chunk [(0, Some 1), (1, None)] (Some (Some 49)) = Inr y
        \<and> denormalize_chunk y (Some (Some 49)) = Inr [(0, Some 1), (1, None)])
   \<and> (\<exists>y z. normalize_binary64 [(0, Some 1), (1, None)] (Some (Some 49)) = Inr y
          \<and> denormalize_binary64 y (Some (Some 49)) = Inr z
          \<and> within_rounding [(0, Some 1), (1, None)] z)"
proof -
  have h: "(0::real) < 49" by simp
  show ?thesis by (rule round_trip_up_to_rounding [OF h])
qed

subsection \<open>Windowing and de-windowing\<close>

text \<open>
  With the quotient made an integer, as \<open>train_on_chunk\<close> does, padding, reshaping,
  flattening and truncating give the sequence back, and what is cut off is the padding.
\<close>

lemma window_dewindow:
  assumes "0 < s"
  shows "\<exists>pad z X flat. additional s (length xs) = Inr pad \<and> np_zeros pad = Inr z
           \<and> np_reshape (np_append xs z) (py_int (py_truediv (length (np_append xs z)) s)) s = Inr X
           \<and> np_flatten X (int (length xs) + pad) = Inr flat
           \<and> take (length xs) flat = xs \<and> drop (length xs) flat = z"
proof -
  let ?pad = "s - int (length xs) mod s"
  let ?z = "replicate (nat ?pad) (0::real)"
  have len: "int (length (xs @ ?z)) = (int (length xs) div s + 1) * s"
    by (rule padded_length [OF assms]) simp
  have c0: "0 \<le> int (length xs) div s + 1"
    using count_nonneg [OF assms len] .
  have natlen: "length (xs @ ?z) = nat (int (length xs) div s + 1) * nat s"
    using len c0 assms by (metis nat_int nat_mult_distrib)
  have spos: "0 < nat s" using assms by simp
  have c: "concat (windows_of (nat s) (xs @ ?z)) = xs @ ?z"
    by (rule concat_windows_of [OF spos natlen])
  have r: "np_reshape (np_append xs ?z) (py_int (py_truediv (length (np_append xs ?z)) s)) s
             = Inr (windows_of (nat s) (xs @ ?z))"
    unfolding np_append_def by (rule reshape_windows_of [OF assms len])
  have "int (length (xs @ ?z)) = int (length xs) + ?pad"
    using pad_bounds(1) [OF assms, of "length xs"] by simp
  then have f: "np_flatten (windows_of (nat s) (xs @ ?z)) (int (length xs) + ?pad) = Inr (xs @ ?z)"
    by (simp add: np_flatten_def c)
  show ?thesis
    by (rule exI [of _ ?pad], rule exI [of _ ?z],
        rule exI [of _ "windows_of (nat s) (xs @ ?z)"], rule exI [of _ "xs @ ?z"])
       (intro conjI additional_pos [OF assms] np_zeros_pad [OF assms] r f, simp_all)
qed

lemma disaggregate_chunk_raises:
  "\<exists>e. fst (disaggregate_chunk predict self h mains) = Inl e"
  by (simp add: disaggregate_chunk_def Let_def additional_def np_zeros_def reshape_float
      split: sum.splits)

lemma disaggregate_chunk_TypeError:
  assumes "0 < sequence_length self"
  shows "fst (disaggregate_chunk predict self h mains) = Inl TypeError"
proof -
  have "\<not> sequence_length self - int (length (data (cells h mains))) mod sequence_length self < 0"
    using pad_bounds(1) [OF assms, of "length (data (cells h mains))"] by linarith
  then show ?thesis using assms
    by (simp add: disaggregate_chunk_def Let_def additional_def np_zeros_def reshape_float)
qed

lemma disaggregate_chunk_store:
  "snd (disaggregate_chunk predict self h mains) = fillna_inplace h mains"
  by (simp add: disaggregate_chunk_def Let_def)

text \<open>
  C1. \<open>disaggregate_chunk\<close> on the series 10, 20, 30, 40 with window size 2 and a
  predictor that hands its input back: the call does not return the series, it raises
  TypeError at the reshape of line 197, whose first dimension is the float
  \<open>len(X_batch) / s\<close>.
\<close>

theorem disaggregate_chunk_no_roundtrip:
  "fst (disaggregate_chunk (\<lambda>m X. Inr (map (map Some) X))
         \<lparr>mmax = Some (Some 40), sequence_length = 2, MIN_CHUNK_LENGTH = 2,
          meter_metadata = 5, model = ()\<rparr>
         \<lparr>cells = (\<lambda>r. \<lparr>data = [(1, Some 10), (2, Some 20), (3, Some 30), (4, Some 40)],
                         name = (''power'', ''active''), timeframe = Some (1, 4)\<rparr>),
          nxt = 1\<rparr> 0)
     = Inl TypeError"
  by (simp add: disaggregate_chunk_def Let_def additional_def np_zeros_def reshape_float)

subsection \<open>Clipping\<close>






text \<open>
  With the method of the class the pass appends nothing: \<open>disaggregate_chunk\<close> raises
  at its reshape for every chunk that is not skipped.
\<close>

lemma disaggregate_step_no_output:
  assumes "disaggregate_step predict building chunk l w = (err, l', w')"
  shows "output_datastore w' = output_datastore w"
proof -
  have r: "\<And>h r. \<exists>e. fst (disaggregate_chunk predict (disaggregator w) h r) = Inl e"
    by (rule disaggregate_chunk_raises)
  show ?thesis
    using assms
    by (auto simp: disaggregate_step_def disaggregate_body_def Let_def alloc_def
        split: if_splits option.splits sum.splits prod.splits)
       (metis r fst_conv sum.distinct(1))
qed

subsection \<open>Selecting the common index\<close>

lemma filter_key:
  "distinct (map fst c) \<Longrightarrow> (t, x) \<in> set c \<Longrightarrow> filter (\<lambda>(t', y). t' = t) c = [(t, x)]"
proof (induction c)
  case Nil
  then show ?case by simp
next
  case (Cons p c)
  show ?case
  proof (cases "p = (t, x)")
    case True
    have "t \<notin> fst ` set c" using Cons.prems(1) True by simp
    then have "filter (\<lambda>(t', y). t' = t) c = []"
      by (auto simp: filter_empty_conv image_iff)
    then show ?thesis using True by simp
  next
    case False
    then have mem: "(t, x) \<in> set c" using Cons.prems(2) by simp
    then have "t \<in> fst ` set c" by (metis fst_conv image_eqI)
    then have "fst p \<noteq> t" using Cons.prems(1) by auto
    then show ?thesis using Cons.IH mem Cons.prems(1) by (simp add: split_def)
  qed
qed

lemma select_Cons:
  "select c (t # ix) = filter (\<lambda>(t', y). t' = t) c @ select c ix"
  by (simp add: select_def)

lemma select_distinct:
  "distinct (map fst c) \<Longrightarrow> set ix \<subseteq> fst ` set c
     \<Longrightarrow> select c ix = map (\<lambda>t. (t, case map_of c t of None \<Rightarrow> 0 | Some x \<Rightarrow> x)) ix"
proof (induction ix)
  case Nil
  then show ?case by (simp add: select_def)
next
  case (Cons t ix)
  from Cons.prems(2) obtain x where x: "(t, x) \<in> set c" by auto
  have m: "map_of c t = Some x" using Cons.prems(1) x by simp
  have "filter (\<lambda>(t', y). t' = t) c = [(t, x)]"
    by (rule filter_key [OF Cons.prems(1) x])
  then show ?case using Cons m by (simp add: select_Cons)
qed

lemma index_intersection_set:
  "set (index_intersection a b) = set a \<inter> set b"
  by (auto simp: index_intersection_def)

lemma map_of_fillna:
  "map_of (fillna d) t = map_option (\<lambda>v. case v of None \<Rightarrow> 0 | Some x \<Rightarrow> x) (map_of d t)"
  by (induction d) (auto simp: fillna_def)

lemma fst_fillna: "map fst (fillna d) = map fst d"
  by (simp add: fillna_def split_def)

lemma fillna_as_rows: "fillna (as_rows c) = c"
  by (induction c) (auto simp: fillna_def as_rows_def)

lemma filled_value:
  "(case map_of (fillna d) t of None \<Rightarrow> 0 | Some x \<Rightarrow> x) = filled_at d t"
  by (simp add: map_of_fillna filled_at_def split: option.splits)

lemma select_fillna:
  assumes "distinct (map fst d)" and "set ix \<subseteq> set (map fst d)"
  shows "map snd (select (fillna d) ix) = map (filled_at d) ix"
proof -
  have "select (fillna d) ix
          = map (\<lambda>t. (t, case map_of (fillna d) t of None \<Rightarrow> 0 | Some x \<Rightarrow> x)) ix"
    using assms by (intro select_distinct) (simp_all add: fst_fillna flip: set_map)
  then show ?thesis by (simp add: filled_value comp_def)
qed

lemma select_length:
  "distinct (map fst c) \<Longrightarrow> set ix \<subseteq> fst ` set c \<Longrightarrow> length (select c ix) = length ix"
  by (simp add: select_distinct)

subsection \<open>The batches of \<open>train_on_chunk\<close>\<close>

lemma window_pad:
  assumes "0 < s" and "length xs = n"
  shows "np_reshape (np_append xs (replicate (nat (s - int n mod s)) 0))
           (py_int (py_truediv (length (np_append xs (replicate (nat (s - int n mod s)) 0))) s)) s
         = Inr (windows_of (nat s) (xs @ replicate (nat (s - int n mod s)) 0))"
proof -
  have "int (length (xs @ replicate (nat (s - int n mod s)) (0::real)))
          = (int (length xs) div s + 1) * s"
    by (rule padded_length [OF assms(1)]) (simp add: assms(2))
  then show ?thesis
    unfolding np_append_def by (rule reshape_windows_of [OF assms(1)])
qed

lemma train_batches_windows:
  assumes "0 < s" and "distinct (map fst mainchunk)" and "distinct (map fst meterchunk)"
  shows "train_batches s mainchunk meterchunk =
           Inr (windows_of (nat s)
                  (map snd (select mainchunk
                     (index_intersection (map fst mainchunk) (map fst meterchunk)))
                   @ replicate (nat (s - int (length
                       (index_intersection (map fst mainchunk) (map fst meterchunk))) mod s)) 0),
                windows_of (nat s)
                  (map snd (select meterchunk
                     (index_intersection (map fst mainchunk) (map fst meterchunk)))
                   @ replicate (nat (s - int (length
                       (index_intersection (map fst mainchunk) (map fst meterchunk))) mod s)) 0))"
proof -
  let ?ix = "index_intersection (map fst mainchunk) (map fst meterchunk)"
  have s1: "set ?ix \<subseteq> fst ` set mainchunk" and s2: "set ?ix \<subseteq> fst ` set meterchunk"
    by (auto simp: index_intersection_set)
  have l1: "length (map snd (select mainchunk ?ix)) = length ?ix"
    using select_length [OF assms(2) s1] by simp
  have l2: "length (map snd (select meterchunk ?ix)) = length ?ix"
    using select_length [OF assms(3) s2] by simp
  show ?thesis
    by (simp only: train_batches_def Let_def additional_pos [OF assms(1)]
        np_zeros_pad [OF assms(1)] sum.case window_pad [OF assms(1) l1]
        window_pad [OF assms(1) l2])
qed

lemma padded_nat_length:
  assumes "0 < s" and "length xs = n"
  shows "length (xs @ replicate (nat (s - int n mod s)) (0::real)) = (n div nat s + 1) * nat s"
proof -
  have "int (length (xs @ replicate (nat (s - int n mod s)) (0::real)))
          = (int (length xs) div s + 1) * s"
    by (rule padded_length [OF assms(1)]) (simp add: assms(2))
  moreover have "int n div s = int (n div nat s)"
    using assms(1) by (simp add: zdiv_int)
  ultimately have "int (length (xs @ replicate (nat (s - int n mod s)) (0::real)))
          = int ((n div nat s + 1) * nat s)"
    using assms by (simp add: algebra_simps)
  then show ?thesis by (simp only: of_nat_eq_iff)
qed

lemma windows_of_nth:
  assumes "length p = c * s" and "0 < s" and "i < c"
  shows "windows_of s p ! i = take s (drop (i * s) p)"
  using assms by (simp add: windows_of_def)

lemma windows_of_count:
  assumes "length p = c * s" and "0 < s"
  shows "length (windows_of s p) = c"
  using assms by (simp add: windows_of_def)

lemma last_window_zero:
  assumes "0 < s" and "length xs = k * s"
  shows "last (windows_of s (xs @ replicate s (0::real))) = replicate s 0"
proof -
  let ?p = "xs @ replicate s (0::real)"
  have len: "length ?p = Suc k * s" using assms by simp
  have cnt: "length (windows_of s ?p) = Suc k"
    by (rule windows_of_count [OF len assms(1)])
  then have ne: "windows_of s ?p \<noteq> []" by auto
  have "last (windows_of s ?p) = windows_of s ?p ! k"
    using cnt by (simp add: last_conv_nth [OF ne])
  also have "\<dots> = take s (drop (k * s) ?p)"
    by (rule windows_of_nth [OF len assms(1)]) simp
  also have "\<dots> = replicate s 0" using assms(2) by simp
  finally show ?thesis .
qed

text \<open>
  C2. For window size \<open>s > 0\<close> and a common index of \<open>n\<close> time stamps, the windower of
  \<open>train_on_chunk\<close> appends \<open>pad\<close> zeros, where \<open>pad = s - n mod s\<close> when
  \<open>n mod s \<noteq> 0\<close> and \<open>pad = s\<close> otherwise; the batch has \<open>n div s + 1\<close> windows,
  window \<open>i\<close> holds the samples \<open>[i * s, (i + 1) * s)\<close> of the padded sequence, and a
  series of exactly \<open>k * s\<close> samples gives \<open>k + 1\<close> windows, the last one all zeros.
\<close>

theorem windower_padding_policy:
  fixes s :: int and mainchunk meterchunk :: "(int \<times> real) list"
  assumes "0 < s" and "distinct (map fst mainchunk)" and "distinct (map fst meterchunk)"
  defines "ix \<equiv> index_intersection (map fst mainchunk) (map fst meterchunk)"
  defines "pad \<equiv> (if int (length ix) mod s \<noteq> 0 then s - int (length ix) mod s else s)"
  defines "padded \<equiv> map snd (select mainchunk ix) @ replicate (nat pad) 0"
  shows "\<exists>X Y. train_batches s mainchunk meterchunk = Inr (X, Y)
           \<and> additional s (length ix) = Inr pad
           \<and> length padded = length ix + nat pad
           \<and> concat X = padded
           \<and> length X = length ix div nat s + 1
           \<and> (\<forall>i < length X. X ! i = take (nat s) (drop (i * nat s) padded))
           \<and> (\<forall>k. length ix = k * nat s \<longrightarrow> length X = k + 1 \<and> last X = replicate (nat s) 0)
           \<and> length Y = length X"
proof -
  let ?n = "length ix"
  let ?z = "replicate (nat (s - int ?n mod s)) (0::real)"
  let ?xs = "map snd (select mainchunk ix)"
  let ?ys = "map snd (select meterchunk ix)"
  let ?X = "windows_of (nat s) (?xs @ ?z)"
  let ?Y = "windows_of (nat s) (?ys @ ?z)"
  have spos: "0 < nat s" using assms(1) by simp
  have pad: "pad = s - int ?n mod s" by (simp add: pad_def)
  have padded: "padded = ?xs @ ?z" by (simp add: padded_def pad)
  have s1: "set ix \<subseteq> fst ` set mainchunk" and s2: "set ix \<subseteq> fst ` set meterchunk"
    by (auto simp: ix_def index_intersection_set)
  have l1: "length ?xs = ?n" using select_length [OF assms(2) s1] by simp
  have l2: "length ?ys = ?n" using select_length [OF assms(3) s2] by simp
  have n1: "length (?xs @ ?z) = (?n div nat s + 1) * nat s"
    by (rule padded_nat_length [OF assms(1) l1])
  have n2: "length (?ys @ ?z) = (?n div nat s + 1) * nat s"
    by (rule padded_nat_length [OF assms(1) l2])
  have tb: "train_batches s mainchunk meterchunk = Inr (?X, ?Y)"
    unfolding ix_def by (rule train_batches_windows [OF assms(1-3)])
  have ad: "additional s ?n = Inr pad"
    by (simp only: pad additional_pos [OF assms(1)])
  have lp: "length padded = ?n + nat pad"
    using l1 by (simp add: padded pad)
  have cc: "concat ?X = padded"
    unfolding padded by (rule concat_windows_of [OF spos n1])
  have cx: "length ?X = ?n div nat s + 1"
    by (rule windows_of_count [OF n1 spos])
  have cy: "length ?Y = length ?X"
    by (simp only: cx windows_of_count [OF n2 spos])
  have nth: "\<forall>i < length ?X. ?X ! i = take (nat s) (drop (i * nat s) padded)"
    unfolding padded cx using windows_of_nth [OF n1 spos] by simp
  have mult: "\<forall>k. ?n = k * nat s \<longrightarrow> length ?X = k + 1 \<and> last ?X = replicate (nat s) 0"
  proof (intro allI impI)
    fix k
    assume k: "?n = k * nat s"
    have "int ?n mod s = 0"
    proof -
      have "int ?n = int k * s" using k assms(1) by simp
      then show ?thesis by simp
    qed
    then have z: "?z = replicate (nat s) 0" by simp
    have lk: "length ?xs = k * nat s" using l1 k by simp
    have "last ?X = replicate (nat s) 0"
      unfolding z by (rule last_window_zero [OF spos lk])
    moreover have "length ?X = k + 1" using cx k spos by simp
    ultimately show "length ?X = k + 1 \<and> last ?X = replicate (nat s) 0" by simp
  qed
  show ?thesis
    by (rule exI [of _ ?X], rule exI [of _ ?Y]) (intro conjI tb ad lp cc cx nth mult cy)
qed

theorem windower_padding_policy_witness:
  "train_batches 2 [(1, 10), (2, 20), (3, 30), (4, 40)] [(1, 1), (2, 2), (3, 3), (4, 4)]
     = Inr ([[10, 20], [30, 40], [0, 0]], [[1, 2], [3, 4], [0, 0]])
   \<and> additional 2 (length (index_intersection [1, 2, 3, 4] [1, 2, 3, 4])) = Inr 2"
proof -
  have h: "(0::int) < 2" by simp
  have d1: "distinct (map fst [(1::int, 10::real), (2, 20), (3, 30), (4, 40)])" by simp
  have d2: "distinct (map fst [(1::int, 1::real), (2, 2), (3, 3), (4, 4)])" by simp
  show ?thesis
    using windower_padding_policy [OF h d1 d2]
    by (simp add: train_batches_def index_intersection_def select_def additional_def np_zeros_def
        np_append_def np_reshape_def py_int_def py_truediv_def upt_conv_Cons eval_nat_numeral)
qed

lemma fillna_after_fill:
  "fillna (data (cells (fillna_inplace h r) r')) = fillna (data (cells h r'))"
  by (simp add: fillna_inplace_def fillna_as_rows)

lemma train_on_chunk_batches:
  "train_on_chunk fit self h mainchunk meterchunk epochs batch_size =
     (case train_batches (sequence_length self) (fillna (data (cells h mainchunk)))
             (fillna (data (cells h meterchunk))) of
        Inl e \<Rightarrow> (Some e, self, fillna_inplace (fillna_inplace h mainchunk) meterchunk)
      | Inr (X_batch, Y_batch) \<Rightarrow>
         (case fit (model self) X_batch Y_batch batch_size epochs of
            (err, m) \<Rightarrow> (err, self\<lparr>model := m\<rparr>,
                         fillna_inplace (fillna_inplace h mainchunk) meterchunk)))"
  by (simp only: train_on_chunk_def Let_def fillna_after_fill)

lemma replicate_two: "replicate 2 x = [x, x]"
  by (simp add: numeral_2_eq_2)

text \<open>
  C8. \<open>train_on_chunk\<close> keeps the time stamps present in both series, and builds both
  batches over that common index with the same padding: the network is fitted with the
  windows of the mains values and of the meter values at the common time stamps (a
  missing value read as 0), so position \<open>k\<close> of both batches belongs to time stamp
  \<open>k\<close> of the common index. Both series are filled in place.
\<close>

theorem train_on_chunk_common_index:
  fixes self :: "'m dae" and h :: store
  assumes "0 < sequence_length self"
    and "distinct (map fst (data (cells h mainchunk)))"
    and "distinct (map fst (data (cells h meterchunk)))"
  defines "ix \<equiv> index_intersection (map fst (data (cells h mainchunk)))
                   (map fst (data (cells h meterchunk)))"
  defines "zeros \<equiv> replicate (nat (sequence_length self
                      - int (length ix) mod sequence_length self)) (0::real)"
  defines "X \<equiv> windows_of (nat (sequence_length self))
                  (map (filled_at (data (cells h mainchunk))) ix @ zeros)"
  defines "Y \<equiv> windows_of (nat (sequence_length self))
                  (map (filled_at (data (cells h meterchunk))) ix @ zeros)"
  shows "set ix = set (map fst (data (cells h mainchunk))) \<inter> set (map fst (data (cells h meterchunk)))
         \<and> train_on_chunk fit self h mainchunk meterchunk epochs batch_size =
             (case fit (model self) X Y batch_size epochs of
                (err, m) \<Rightarrow> (err, self\<lparr>model := m\<rparr>,
                             fillna_inplace (fillna_inplace h mainchunk) meterchunk))
         \<and> length X = length Y
         \<and> (\<forall>k < length ix. concat X ! k = filled_at (data (cells h mainchunk)) (ix ! k)
                           \<and> concat Y ! k = filled_at (data (cells h meterchunk)) (ix ! k))"
proof -
  let ?s = "sequence_length self"
  let ?dm = "data (cells h mainchunk)" and ?dt = "data (cells h meterchunk)"
  have spos: "0 < nat ?s" using assms(1) by simp
  have ixf: "index_intersection (map fst (fillna ?dm)) (map fst (fillna ?dt)) = ix"
    by (simp only: fst_fillna ix_def)
  have s1: "set ix \<subseteq> set (map fst ?dm)" and s2: "set ix \<subseteq> set (map fst ?dt)"
    by (auto simp: ix_def index_intersection_set)
  have d1: "distinct (map fst (fillna ?dm))" and d2: "distinct (map fst (fillna ?dt))"
    using assms(2,3) by (simp_all only: fst_fillna)
  have v1: "map snd (select (fillna ?dm) ix) = map (filled_at ?dm) ix"
    by (rule select_fillna [OF assms(2) s1])
  have v2: "map snd (select (fillna ?dt) ix) = map (filled_at ?dt) ix"
    by (rule select_fillna [OF assms(3) s2])
  have tb: "train_batches ?s (fillna ?dm) (fillna ?dt) = Inr (X, Y)"
    by (simp only: train_batches_windows [OF assms(1) d1 d2] ixf v1 v2 X_def Y_def zeros_def)
  have toc: "train_on_chunk fit self h mainchunk meterchunk epochs batch_size =
             (case fit (model self) X Y batch_size epochs of
                (err, m) \<Rightarrow> (err, self\<lparr>model := m\<rparr>,
                             fillna_inplace (fillna_inplace h mainchunk) meterchunk))"
    by (simp only: train_on_chunk_batches tb sum.case prod.case)
  have n1: "length (map (filled_at ?dm) ix @ zeros) = (length ix div nat ?s + 1) * nat ?s"
    unfolding zeros_def by (rule padded_nat_length [OF assms(1)]) simp
  have n2: "length (map (filled_at ?dt) ix @ zeros) = (length ix div nat ?s + 1) * nat ?s"
    unfolding zeros_def by (rule padded_nat_length [OF assms(1)]) simp
  have len: "length X = length Y"
    by (simp only: X_def Y_def windows_of_count [OF n1 spos] windows_of_count [OF n2 spos])
  have c1: "concat X = map (filled_at ?dm) ix @ zeros"
    unfolding X_def by (rule concat_windows_of [OF spos n1])
  have c2: "concat Y = map (filled_at ?dt) ix @ zeros"
    unfolding Y_def by (rule concat_windows_of [OF spos n2])
  have al: "\<forall>k < length ix. concat X ! k = filled_at ?dm (ix ! k)
                           \<and> concat Y ! k = filled_at ?dt (ix ! k)"
    by (simp add: c1 c2 nth_append)
  have si: "set ix = set (map fst ?dm) \<inter> set (map fst ?dt)"
    by (simp only: ix_def index_intersection_set)
  show ?thesis
    by (intro conjI si toc len al)
qed

theorem train_on_chunk_common_index_witness:
  "train_on_chunk (\<lambda>m X Y b e. (None, (X, Y)))
     \<lparr>mmax = Some (Some 40), sequence_length = 2, MIN_CHUNK_LENGTH = 2, meter_metadata = 5,
      model = ([], [])\<rparr>
     \<lparr>cells = (\<lambda>r. if r = 0
                  then \<lparr>data = [(1, Some 10), (2, None), (3, Some 30)],
                        name = (''power'', ''active''), timeframe = None\<rparr>
                  else \<lparr>data = [(2, Some 5), (3, Some 6), (4, Some 7)],
                        name = (''power'', ''active''), timeframe = None\<rparr>),
      nxt = 2\<rparr> 0 1 1 16
   = (None,
      \<lparr>mmax = Some (Some 40), sequence_length = 2, MIN_CHUNK_LENGTH = 2, meter_metadata = 5,
       model = ([[0, 30], [0, 0]], [[5, 6], [0, 0]])\<rparr>,
      fillna_inplace (fillna_inplace
        \<lparr>cells = (\<lambda>r. if r = 0
                  then \<lparr>data = [(1, Some 10), (2, None), (3, Some 30)],
                        name = (''power'', ''active''), timeframe = None\<rparr>
                  else \<lparr>data = [(2, Some 5), (3, Some 6), (4, Some 7)],
                        name = (''power'', ''active''), timeframe = None\<rparr>),
         nxt = 2\<rparr> 0) 1)"
proof -
  let ?self = "\<lparr>mmax = Some (Some 40), sequence_length = 2, MIN_CHUNK_LENGTH = 2,
                meter_metadata = 5, model = ([], []) :: real list list \<times> real list list\<rparr>"
  let ?h = "\<lparr>cells = (\<lambda>r. if r = (0::nat)
                  then \<lparr>data = [(1, Some 10), (2, None), (3, Some 30)],
                        name = (''power'', ''active''), timeframe = None\<rparr>
                  else \<lparr>data = [(2, Some 5), (3, Some 6), (4, Some 7)],
                        name = (''power'', ''active''), timeframe = None\<rparr>),
             nxt = 2\<rparr>"
  have h: "0 < sequence_length ?self" by simp
  have d1: "distinct (map fst (data (cells ?h 0)))" by simp
  have d2: "distinct (map fst (data (cells ?h 1)))" by simp
  show ?thesis
    using train_on_chunk_common_index [OF h d1 d2, of "\<lambda>m X Y b e. (None, (X, Y))" 1 16,
        THEN conjunct2, THEN conjunct1]
    by (simp add: index_intersection_def filled_at_def windows_of_def upt_conv_Cons
        replicate_two)
qed

subsection \<open>What the methods write\<close>

lemma fillna_inplace_nxt: "nxt (fillna_inplace h r) = nxt h"
  by (simp add: fillna_inplace_def)

lemma fillna_inplace_other: "q \<noteq> r \<Longrightarrow> cells (fillna_inplace h r) q = cells h q"
  by (simp add: fillna_inplace_def)

lemma alloc_fresh:
  "alloc h x = (r, h') \<Longrightarrow> r = nxt h \<and> nxt h' = Suc (nxt h) \<and> (\<forall>q < nxt h. cells h' q = cells h q)"
  by (auto simp: alloc_def)

lemma train_on_chunk_writes:
  assumes "train_on_chunk fit self h mainchunk meterchunk epochs batch_size = (err, self', h')"
  shows "h' = fillna_inplace (fillna_inplace h mainchunk) meterchunk"
    and "mmax self' = mmax self"
    and "sequence_length self' = sequence_length self"
    and "MIN_CHUNK_LENGTH self' = MIN_CHUNK_LENGTH self"
    and "meter_metadata self' = meter_metadata self"
  using assms
  by (auto simp: train_on_chunk_batches split: sum.splits prod.splits)

lemma train_step_writes:
  assumes "train_step fit mainchunk meterchunk epochs batch_size w = (err, w')"
  shows "mmax (disaggregator w') = mmax (disaggregator w)
         \<and> sequence_length (disaggregator w') = sequence_length (disaggregator w)
         \<and> MIN_CHUNK_LENGTH (disaggregator w') = MIN_CHUNK_LENGTH (disaggregator w)
         \<and> meter_metadata (disaggregator w') = meter_metadata (disaggregator w)
         \<and> output_datastore w' = output_datastore w
         \<and> output_metadata w' = output_metadata w
         \<and> nxt (heap w) \<le> nxt (heap w')
         \<and> (\<forall>r < nxt (heap w). cells (heap w') r = cells (heap w) r)"
proof (cases "normalize_chunk (data (cells (heap w) mainchunk)) (mmax (disaggregator w))")
  case (Inl e)
  then show ?thesis using assms by (auto simp: train_step_def)
next
  case (Inr nmain)
  define h1 where
    "h1 = snd (alloc (heap w) ((cells (heap w) mainchunk)\<lparr>data := nmain, timeframe := None\<rparr>))"
  have a1: "alloc (heap w) ((cells (heap w) mainchunk)\<lparr>data := nmain, timeframe := None\<rparr>)
              = (nxt (heap w), h1)"
    by (simp add: alloc_def h1_def)
  have n1: "nxt h1 = Suc (nxt (heap w))" and c1: "\<forall>q < nxt (heap w). cells h1 q = cells (heap w) q"
    using alloc_fresh [OF a1] by simp_all
  show ?thesis
  proof (cases "normalize_chunk (data (cells h1 meterchunk)) (mmax (disaggregator w))")
    case (Inl e)
    then show ?thesis using assms Inr a1 n1 c1 by (auto simp: train_step_def)
  next
    case Inr2: (Inr nmeter)
    define h2 where
      "h2 = snd (alloc h1 ((cells h1 meterchunk)\<lparr>data := nmeter, timeframe := None\<rparr>))"
    have a2: "alloc h1 ((cells h1 meterchunk)\<lparr>data := nmeter, timeframe := None\<rparr>)
                = (Suc (nxt (heap w)), h2)"
      using n1 by (simp add: alloc_def h2_def)
    have n2: "nxt h2 = Suc (Suc (nxt (heap w)))"
      and c2: "\<forall>q < Suc (nxt (heap w)). cells h2 q = cells h1 q"
      using alloc_fresh [OF a2] n1 by simp_all
    obtain err' self' h3 where
      t: "train_on_chunk fit (disaggregator w) h2 (nxt (heap w)) (Suc (nxt (heap w)))
            epochs batch_size = (err', self', h3)"
      by (metis prod_cases3)
    have w': "w' = w\<lparr>disaggregator := self', heap := h3\<rparr>"
      using assms Inr Inr2 a1 a2 t by (simp add: train_step_def)
    have h3: "h3 = fillna_inplace (fillna_inplace h2 (nxt (heap w))) (Suc (nxt (heap w)))"
      by (rule train_on_chunk_writes(1) [OF t])
    have n3: "nxt h3 = Suc (Suc (nxt (heap w)))"
      by (simp only: h3 fillna_inplace_nxt n2)
    have c3: "\<forall>r < nxt (heap w). cells h3 r = cells (heap w) r"
    proof (intro allI impI)
      fix r assume r: "r < nxt (heap w)"
      have "cells h3 r = cells h2 r"
        using r by (simp only: h3) (simp add: fillna_inplace_other)
      also have "\<dots> = cells h1 r" using c2 r by simp
      also have "\<dots> = cells (heap w) r" using c1 r by simp
      finally show "cells h3 r = cells (heap w) r" .
    qed
    show ?thesis
      using train_on_chunk_writes(2-5) [OF t] n3 c3 by (simp add: w')
  qed
qed

lemma train_loop_writes:
  "train_loop fit mainchunk meterchunk ms ts epochs batch_size w = (err, w')
   \<Longrightarrow> mmax (disaggregator w') = mmax (disaggregator w)
       \<and> sequence_length (disaggregator w') = sequence_length (disaggregator w)
       \<and> MIN_CHUNK_LENGTH (disaggregator w') = MIN_CHUNK_LENGTH (disaggregator w)
       \<and> meter_metadata (disaggregator w') = meter_metadata (disaggregator w)
       \<and> output_datastore w' = output_datastore w
       \<and> output_metadata w' = output_metadata w
       \<and> nxt (heap w) \<le> nxt (heap w')
       \<and> (\<forall>r < nxt (heap w). cells (heap w') r = cells (heap w) r)"
proof (induction fit mainchunk meterchunk ms ts epochs batch_size w arbitrary: err w'
    rule: train_loop.induct)
  case (1 fit mainchunk meterchunk ms ts epochs batch_size w)
  obtain e1 w1 where s: "train_step fit mainchunk meterchunk epochs batch_size w = (e1, w1)"
    by (metis surj_pair)
  note st = train_step_writes [OF s]
  show ?case
  proof (cases "e1 = None \<and> ms \<noteq> [] \<and> ts \<noteq> []")
    case False
    then have "w' = w1"
      using "1.prems" s
      by (subst (asm) train_loop.simps) (auto split: option.splits list.splits)
    then show ?thesis using st by simp
  next
    case True
    then obtain m ms' t ts' where c: "e1 = None" "ms = m # ms'" "ts = t # ts'"
      by (metis list.exhaust)
    have r: "train_loop fit m t ms' ts' epochs batch_size w1 = (err, w')"
      using "1.prems" s c by (subst (asm) train_loop.simps) simp
    have s': "(e1, w1) = train_step fit mainchunk meterchunk epochs batch_size w"
      using s by simp
    have ih: "mmax (disaggregator w') = mmax (disaggregator w1)
       \<and> sequence_length (disaggregator w') = sequence_length (disaggregator w1)
       \<and> MIN_CHUNK_LENGTH (disaggregator w') = MIN_CHUNK_LENGTH (disaggregator w1)
       \<and> meter_metadata (disaggregator w') = meter_metadata (disaggregator w1)
       \<and> output_datastore w' = output_datastore w1
       \<and> output_metadata w' = output_metadata w1
       \<and> nxt (heap w1) \<le> nxt (heap w')
       \<and> (\<forall>r < nxt (heap w1). cells (heap w') r = cells (heap w1) r)"
      by (rule "1.IH" [OF s' c(1) c(2) c(3) r])
    show ?thesis using st ih by auto
  qed
qed

lemma train_writes:
  assumes "train fit ms ts epochs batch_size w = (err, w')"
  shows "sequence_length (disaggregator w') = sequence_length (disaggregator w)
         \<and> MIN_CHUNK_LENGTH (disaggregator w') = MIN_CHUNK_LENGTH (disaggregator w)
         \<and> meter_metadata (disaggregator w') = meter_metadata (disaggregator w)
         \<and> output_datastore w' = output_datastore w
         \<and> output_metadata w' = output_metadata w
         \<and> nxt (heap w) \<le> nxt (heap w')
         \<and> (\<forall>r < nxt (heap w). cells (heap w') r = cells (heap w) r)"
proof (cases "ms = [] \<or> ts = []")
  case True
  then have "w' = w" using assms by (auto simp: train_def split: list.splits)
  then show ?thesis by simp
next
  case False
  then obtain mc ms' tc ts' where c: "ms = mc # ms'" "ts = tc # ts'"
    by (metis list.exhaust)
  let ?w1 = "(if mmax (disaggregator w) = None
              then w\<lparr>disaggregator := (disaggregator w)\<lparr>mmax :=
                     Some (series_max (data (cells (heap w) mc)))\<rparr>\<rparr>
              else w)"
  have "train_loop fit mc tc ms' ts' epochs batch_size ?w1 = (err, w')"
    using assms c by (simp add: train_def Let_def)
  from train_loop_writes [OF this] show ?thesis by (auto split: if_splits)
qed

lemma train_mmax:
  assumes "train fit ms ts epochs batch_size w = (err, w')"
  shows "mmax (disaggregator w') =
           (case mmax (disaggregator w) of
              Some v \<Rightarrow> Some v
            | None \<Rightarrow>
               (case ms of
                  [] \<Rightarrow> None
                | mc # ms' \<Rightarrow>
                   (case ts of
                      [] \<Rightarrow> None
                    | tc # ts' \<Rightarrow> Some (series_max (data (cells (heap w) mc))))))"
proof (cases "ms = [] \<or> ts = []")
  case True
  then have "w' = w" using assms by (auto simp: train_def split: list.splits)
  then show ?thesis using True by (auto split: option.splits list.splits)
next
  case False
  then obtain mc ms' tc ts' where c: "ms = mc # ms'" "ts = tc # ts'"
    by (metis list.exhaust)
  let ?w1 = "(if mmax (disaggregator w) = None
              then w\<lparr>disaggregator := (disaggregator w)\<lparr>mmax :=
                     Some (series_max (data (cells (heap w) mc)))\<rparr>\<rparr>
              else w)"
  have "train_loop fit mc tc ms' ts' epochs batch_size ?w1 = (err, w')"
    using assms c by (simp add: train_def Let_def)
  from train_loop_writes [OF this] have "mmax (disaggregator w') = mmax (disaggregator ?w1)"
    by simp
  then show ?thesis using c by (auto split: option.splits)
qed

lemma disaggregate_step_writes:
  assumes "disaggregate_step predict building chunk l w = (err, l', w')"
  shows "disaggregator w' = disaggregator w
         \<and> output_metadata w' = output_metadata w
         \<and> nxt (heap w) \<le> nxt (heap w')
         \<and> (\<forall>r < nxt (heap w). cells (heap w') r = cells (heap w) r)"
proof (cases "int (length (data (cells (heap w) chunk))) < MIN_CHUNK_LENGTH (disaggregator w)")
  case True
  then show ?thesis using assms by (simp add: disaggregate_step_def disaggregate_body_def)
next
  case long: False
  show ?thesis
  proof (cases "timeframe (cells (heap w) chunk)")
    case None
    then show ?thesis using assms long by (simp add: disaggregate_step_def disaggregate_body_def)
  next
    case (Some tf)
    show ?thesis
    proof (cases "normalize_chunk (data (cells (heap w) chunk)) (mmax (disaggregator w))")
      case (Inl e)
      then show ?thesis using assms long Some by (simp add: disaggregate_step_def disaggregate_body_def Let_def)
    next
      case (Inr n)
      define h1 where
        "h1 = snd (alloc (heap w) ((cells (heap w) chunk)\<lparr>data := n, timeframe := None\<rparr>))"
      have a1: "alloc (heap w) ((cells (heap w) chunk)\<lparr>data := n, timeframe := None\<rparr>)
                  = (nxt (heap w), h1)"
        by (simp add: alloc_def h1_def)
      have n1: "nxt h1 = Suc (nxt (heap w))"
        and c1: "\<forall>q < nxt (heap w). cells h1 q = cells (heap w) q"
        using alloc_fresh [OF a1] by simp_all
      obtain res h2 where
        d: "disaggregate_chunk predict (disaggregator w) h1 (nxt (heap w)) = (res, h2)"
        by (metis surj_pair)
      have h2: "h2 = fillna_inplace h1 (nxt (heap w))"
        using disaggregate_chunk_store [of predict "disaggregator w" h1 "nxt (heap w)"] d
        by simp
      have n2: "nxt h2 = Suc (nxt (heap w))" by (simp only: h2 fillna_inplace_nxt n1)
      have c2: "\<forall>r < nxt (heap w). cells h2 r = cells (heap w) r"
        using c1 by (simp add: h2 fillna_inplace_other)
      have "disaggregator w' = disaggregator w \<and> output_metadata w' = output_metadata w
              \<and> heap w' = h2"
        using assms long Some Inr a1 d
        by (auto simp: disaggregate_step_def disaggregate_body_def Let_def split: sum.splits)
      then show ?thesis using n2 c2 by simp
    qed
  qed
qed

lemma disaggregate_loop_writes:
  "disaggregate_loop predict building chunks l w = (err, l', w')
   \<Longrightarrow> disaggregator w' = disaggregator w
       \<and> output_metadata w' = output_metadata w
       \<and> nxt (heap w) \<le> nxt (heap w')
       \<and> (\<forall>r < nxt (heap w). cells (heap w') r = cells (heap w) r)"
proof (induction chunks arbitrary: l w)
  case Nil
  then show ?case by simp
next
  case (Cons chunk rest)
  obtain e1 l1 w1 where s: "disaggregate_step predict building chunk l w = (e1, l1, w1)"
    by (metis prod_cases3)
  note st = disaggregate_step_writes [OF s]
  show ?case
  proof (cases e1)
    case (Some e)
    then have "w' = w1" using Cons.prems s by simp
    then show ?thesis using st by simp
  next
    case None
    then have "disaggregate_loop predict building rest l1 w1 = (err, l', w')"
      using Cons.prems s by simp
    from Cons.IH [OF this] st show ?thesis by auto
  qed
qed

lemma disaggregate_writes:
  assumes "disaggregate predict mains building sample_period w = (err, w')"
  shows "disaggregator w' = disaggregator w
         \<and> nxt (heap w) \<le> nxt (heap w')
         \<and> (\<forall>r < nxt (heap w). cells (heap w') r = cells (heap w) r)"
proof -
  obtain e1 l1 w1 where
    s: "disaggregate_loop predict building mains
          \<lparr>timeframes = [], data_is_available = False, measurement = None\<rparr> w = (e1, l1, w1)"
    by (metis prod_cases3)
  have "disaggregator w' = disaggregator w1 \<and> heap w' = heap w1"
    using assms s by (auto simp: disaggregate_def Let_def split: option.splits if_splits)
  then show ?thesis using disaggregate_loop_writes [OF s] by simp
qed

subsection \<open>The scale\<close>

lemma run_call_mmax:
  "mmax (disaggregator w) = Some v \<Longrightarrow> mmax (disaggregator (run_call fit predict c w)) = Some v"
proof (cases c)
  case (Train ms ts epochs batch_size)
  obtain err w' where t: "train fit ms ts epochs batch_size w = (err, w')"
    by (metis surj_pair)
  assume "mmax (disaggregator w) = Some v"
  then show ?thesis using train_mmax [OF t] t Train by simp
next
  case (Disaggregate mains building sample_period)
  obtain err w' where d: "disaggregate predict mains building sample_period w = (err, w')"
    by (metis surj_pair)
  assume "mmax (disaggregator w) = Some v"
  then show ?thesis using disaggregate_writes [OF d] d Disaggregate by simp
qed

lemma run_calls_mmax:
  "mmax (disaggregator w) = Some v \<Longrightarrow> mmax (disaggregator (run_calls fit predict cs w)) = Some v"
proof (induction cs arbitrary: w)
  case Nil
  then show ?case by simp
next
  case (Cons c cs)
  have "mmax (disaggregator (run_call fit predict c w)) = Some v"
    by (rule run_call_mmax [OF Cons.prems])
  from Cons.IH [OF this] show ?case by simp
qed

text \<open>
  C5. The scale is set at most once. A \<open>train\<close> call on an instance whose scale is unset
  sets it to the maximum of the first mains chunk; once the scale is set, no sequence of
  \<open>train\<close> and \<open>disaggregate\<close> calls changes it, whatever the later chunks hold.
\<close>

theorem scale_set_at_most_once:
  "(mmax (disaggregator w) = None \<longrightarrow>
      mmax (disaggregator (snd (train fit (mainchunk # ms) (meterchunk # ts) epochs batch_size w)))
        = Some (series_max (data (cells (heap w) mainchunk))))
   \<and> (mmax (disaggregator w) = Some v \<longrightarrow>
        mmax (disaggregator (run_calls fit predict calls w)) = Some v)"
proof (intro conjI impI)
  assume n: "mmax (disaggregator w) = None"
  obtain err w' where
    t: "train fit (mainchunk # ms) (meterchunk # ts) epochs batch_size w = (err, w')"
    by (metis surj_pair)
  show "mmax (disaggregator (snd (train fit (mainchunk # ms) (meterchunk # ts) epochs batch_size w)))
          = Some (series_max (data (cells (heap w) mainchunk)))"
    using train_mmax [OF t] t n by simp
next
  assume "mmax (disaggregator w) = Some v"
  then show "mmax (disaggregator (run_calls fit predict calls w)) = Some v"
    by (rule run_calls_mmax)
qed

theorem scale_set_at_most_once_witness:
  "mmax (disaggregator (snd (train (\<lambda>m X Y b e. (None, m)) [0, 2] [1, 3] 1 16
      \<lparr>disaggregator = init (\<lambda>s. ()) 5 2,
       heap = \<lparr>cells = (\<lambda>r. if r = 2
                  then \<lparr>data = [(3, Some 100), (4, Some 90)],
                        name = (''power'', ''active''), timeframe = Some (3, 4)\<rparr>
                  else \<lparr>data = [(1, Some 10), (2, Some 40)],
                        name = (''power'', ''active''), timeframe = Some (1, 2)\<rparr>),
               nxt = 4\<rparr>,
       output_datastore = [], output_metadata = []\<rparr>)))
     = Some (Some 40)
   \<and> mmax (disaggregator (run_calls (\<lambda>m X Y b e. (None, m)) (\<lambda>m X. Inr (map (map Some) X))
        [Train [2] [3] 1 16, Disaggregate [2] 1 None]
        \<lparr>disaggregator = (init (\<lambda>s. ()) 5 2)\<lparr>mmax := Some (Some 40)\<rparr>,
         heap = \<lparr>cells = (\<lambda>r. if r = 2
                  then \<lparr>data = [(3, Some 100), (4, Some 90)],
                        name = (''power'', ''active''), timeframe = Some (3, 4)\<rparr>
                  else \<lparr>data = [(1, Some 10), (2, Some 40)],
                        name = (''power'', ''active''), timeframe = Some (1, 2)\<rparr>),
               nxt = 4\<rparr>,
         output_datastore = [], output_metadata = []\<rparr>))
     = Some (Some 40)"
proof -
  let ?h = "\<lparr>cells = (\<lambda>r. if r = (2::nat)
                  then \<lparr>data = [(3, Some 100), (4, Some 90)],
                        name = (''power'', ''active''), timeframe = Some (3, 4)\<rparr>
                  else \<lparr>data = [(1, Some 10), (2, Some 40)],
                        name = (''power'', ''active''), timeframe = Some (1, 2)\<rparr>),
               nxt = 4\<rparr>"
  let ?w0 = "\<lparr>disaggregator = init (\<lambda>s. ()) 5 2, heap = ?h,
             output_datastore = [], output_metadata = []\<rparr>"
  let ?w1 = "\<lparr>disaggregator = (init (\<lambda>s. ()) 5 2)\<lparr>mmax := Some (Some 40)\<rparr>, heap = ?h,
             output_datastore = [], output_metadata = []\<rparr>"
  have n: "mmax (disaggregator ?w0) = None" by (simp add: init_def)
  have m: "series_max (data (cells (heap ?w0) 0)) = Some 40"
    by (simp add: series_max_def List.map_filter_simps)
  have s: "mmax (disaggregator ?w1) = Some (Some 40)" by simp
  have a: "mmax (disaggregator (snd (train (\<lambda>m X Y b e. (None, m)) [0, 2] [1, 3] 1 16 ?w0)))
             = Some (Some 40)"
    using scale_set_at_most_once [of ?w0 "\<lambda>m X Y b e. (None, m)" 0 "[2]" 1 "[3]" 1 16,
        THEN conjunct1, rule_format, OF n] m by simp
  have b: "mmax (disaggregator (run_calls (\<lambda>m X Y b e. (None, m)) (\<lambda>m X. Inr (map (map Some) X))
             [Train [2] [3] 1 16, Disaggregate [2] 1 None] ?w1)) = Some (Some 40)"
    by (rule scale_set_at_most_once [THEN conjunct2, rule_format, OF s])
  show ?thesis using a b by (intro conjI)
qed

subsection \<open>Chunks that are too short\<close>

lemma disaggregate_loop_append:
  "disaggregate_loop predict building (xs @ ys) l w =
     (case disaggregate_loop predict building xs l w of
        (Some e, l', w') \<Rightarrow> (Some e, l', w')
      | (None, l', w') \<Rightarrow> disaggregate_loop predict building ys l' w')"
proof (induction xs arbitrary: l w)
  case Nil
  then show ?case by simp
next
  case (Cons x xs)
  then show ?case by (simp split: prod.splits option.splits)
qed

lemma short_chunk_step:
  assumes "int (length (data (cells (heap w) chunk))) < MIN_CHUNK_LENGTH (disaggregator w)"
  shows "disaggregate_step predict building chunk l w = (None, l, w)"
  using assms by (simp add: disaggregate_step_def disaggregate_body_def)

text \<open>
  C6. A chunk shorter than \<open>sequence_length\<close> is skipped without an error: its pass
  through the loop changes neither the output, nor the tracked time frames, nor the
  instance, and a run of \<open>disaggregate\<close> over a stream that holds the chunk ends as the
  run over the stream without it. (\<open>MIN_CHUNK_LENGTH\<close> is \<open>sequence_length\<close> from
  \<open>__init__\<close> on.)
\<close>

theorem short_chunk_skipped:
  assumes "chunk < nxt (heap w)"
    and "int (length (data (cells (heap w) chunk))) < sequence_length (disaggregator w)"
    and "MIN_CHUNK_LENGTH (disaggregator w) = sequence_length (disaggregator w)"
  shows "disaggregate_step predict building chunk l w = (None, l, w)
         \<and> disaggregate predict (before @ chunk # rest) building sample_period w
             = disaggregate predict (before @ rest) building sample_period w"
proof -
  let ?l0 = "\<lparr>timeframes = [], data_is_available = False, measurement = None\<rparr>"
  have short: "int (length (data (cells (heap w) chunk))) < MIN_CHUNK_LENGTH (disaggregator w)"
    using assms(2,3) by simp
  have step: "disaggregate_step predict building chunk l w = (None, l, w)"
    by (rule short_chunk_step [OF short])
  obtain e1 l1 w1 where b: "disaggregate_loop predict building before ?l0 w = (e1, l1, w1)"
    by (metis prod_cases3)
  note fr = disaggregate_loop_writes [OF b]
  have "cells (heap w1) chunk = cells (heap w) chunk" using fr assms(1) by simp
  then have "int (length (data (cells (heap w1) chunk))) < MIN_CHUNK_LENGTH (disaggregator w1)"
    using short fr by simp
  then have "disaggregate_step predict building chunk l1 w1 = (None, l1, w1)"
    by (rule short_chunk_step)
  then have eq: "disaggregate_loop predict building (chunk # rest) l1 w1
               = disaggregate_loop predict building rest l1 w1"
    by simp
  have "disaggregate_loop predict building (before @ chunk # rest) ?l0 w
               = disaggregate_loop predict building (before @ rest) ?l0 w"
    by (cases e1) (simp_all only: disaggregate_loop_append b prod.case option.case eq)
  then have "disaggregate predict (before @ chunk # rest) building sample_period w
               = disaggregate predict (before @ rest) building sample_period w"
    by (simp add: disaggregate_def)
  then show ?thesis using step by simp
qed

theorem short_chunk_skipped_witness:
  "disaggregate (\<lambda>m X. Inr (map (map Some) X)) ([] @ 0 # []) 1 None
     \<lparr>disaggregator = init (\<lambda>s. ()) 5 3,
      heap = \<lparr>cells = (\<lambda>r. \<lparr>data = [(1, Some 10), (2, Some 40)],
                              name = (''power'', ''active''), timeframe = Some (1, 2)\<rparr>),
              nxt = 1\<rparr>,
      output_datastore = [], output_metadata = []\<rparr>
   = (None,
      \<lparr>disaggregator = init (\<lambda>s. ()) 5 3,
       heap = \<lparr>cells = (\<lambda>r. \<lparr>data = [(1, Some 10), (2, Some 40)],
                               name = (''power'', ''active''), timeframe = Some (1, 2)\<rparr>),
               nxt = 1\<rparr>,
       output_datastore = [], output_metadata = []\<rparr>)"
proof -
  let ?w = "\<lparr>disaggregator = init (\<lambda>s. ()) 5 3,
      heap = \<lparr>cells = (\<lambda>r. \<lparr>data = [(1, Some 10), (2, Some 40)],
                              name = (''power'', ''active''), timeframe = Some (1, 2)\<rparr>),
              nxt = 1\<rparr>,
      output_datastore = [], output_metadata = []\<rparr>"
  have a: "0 < nxt (heap ?w)" by simp
  have b: "int (length (data (cells (heap ?w) 0))) < sequence_length (disaggregator ?w)"
    by (simp add: init_def)
  have c: "MIN_CHUNK_LENGTH (disaggregator ?w) = sequence_length (disaggregator ?w)"
    by (simp add: init_def)
  have "disaggregate (\<lambda>m X. Inr (map (map Some) X)) ([] @ 0 # []) 1 None ?w
          = disaggregate (\<lambda>m X. Inr (map (map Some) X)) ([] @ []) 1 None ?w"
    using short_chunk_skipped [OF a b c, of "\<lambda>m X. Inr (map (map Some) X)" 1 _ "[]" "[]" None] by simp
  then show ?thesis by (simp add: disaggregate_def)
qed

subsection \<open>The caller's series\<close>

text \<open>
  C9 as stated fails: \<open>disaggregate_chunk\<close> fills the series it is given in place.
  Here the caller's series has a missing value at time stamp 2, and holds 0 there
  after the call.
\<close>

theorem input_chunk_filled_in_place:
  "data (cells (snd (disaggregate_chunk (\<lambda>m X. Inr (map (map Some) X))
           \<lparr>mmax = Some (Some 40), sequence_length = 2, MIN_CHUNK_LENGTH = 2,
            meter_metadata = 5, model = ()\<rparr>
           \<lparr>cells = (\<lambda>r. \<lparr>data = [(1, Some 10), (2, None)],
                           name = (''power'', ''active''), timeframe = Some (1, 2)\<rparr>),
            nxt = 1\<rparr> 0)) 0)
     = [(1, Some 10), (2, Some 0)]
   \<and> data (cells \<lparr>cells = (\<lambda>r. \<lparr>data = [(1, Some 10), (2, None)],
                           name = (''power'', ''active''), timeframe = Some (1, 2)\<rparr>),
            nxt = 1\<rparr> 0)
     = [(1, Some 10), (2, None)]"
  by (simp add: disaggregate_chunk_store fillna_inplace_def fillna_def as_rows_def)

text \<open>
  C9, amended. \<open>train\<close> and \<open>disaggregate\<close> leave every series that exists before
  the call as it is: they normalise each chunk into a new series and fill that one.
  \<open>train_on_chunk\<close> and \<open>disaggregate_chunk\<close> fill the series they are given in
  place, also when they raise, and write nothing else.
\<close>

theorem callers_chunks_after_call:
  "(\<forall>r < nxt (heap w).
      cells (heap (snd (train fit ms ts epochs batch_size w))) r = cells (heap w) r)
   \<and> (\<forall>r < nxt (heap w).
        cells (heap (snd (disaggregate predict mains building sample_period w))) r
          = cells (heap w) r)
   \<and> snd (disaggregate_chunk predict self h chunk) = fillna_inplace h chunk
   \<and> snd (snd (train_on_chunk fit self h mainchunk meterchunk epochs batch_size))
       = fillna_inplace (fillna_inplace h mainchunk) meterchunk"
proof (intro conjI)
  obtain err w' where t: "train fit ms ts epochs batch_size w = (err, w')"
    by (metis surj_pair)
  show "\<forall>r < nxt (heap w).
          cells (heap (snd (train fit ms ts epochs batch_size w))) r = cells (heap w) r"
    using train_writes [OF t] t by simp
  obtain err' w'' where d: "disaggregate predict mains building sample_period w = (err', w'')"
    by (metis surj_pair)
  show "\<forall>r < nxt (heap w).
          cells (heap (snd (disaggregate predict mains building sample_period w))) r
            = cells (heap w) r"
    using disaggregate_writes [OF d] d by simp
  show "snd (disaggregate_chunk predict self h chunk) = fillna_inplace h chunk"
    by (rule disaggregate_chunk_store)
  obtain e s' h' where
    c: "train_on_chunk fit self h mainchunk meterchunk epochs batch_size = (e, s', h')"
    by (metis prod_cases3)
  show "snd (snd (train_on_chunk fit self h mainchunk meterchunk epochs batch_size))
          = fillna_inplace (fillna_inplace h mainchunk) meterchunk"
    using train_on_chunk_writes(1) [OF c] c by simp
qed

theorem callers_chunks_after_call_witness:
  "cells (heap (snd (disaggregate (\<lambda>m X. Inr (map (map Some) X)) [0] 1 None
      \<lparr>disaggregator = (init (\<lambda>s. ()) 5 2)\<lparr>mmax := Some (Some 40)\<rparr>,
       heap = \<lparr>cells = (\<lambda>r. \<lparr>data = [(1, Some 10), (2, None)],
                               name = (''power'', ''active''), timeframe = Some (1, 2)\<rparr>),
               nxt = 2\<rparr>,
       output_datastore = [], output_metadata = []\<rparr>))) 0
     = \<lparr>data = [(1, Some 10), (2, None)],
        name = (''power'', ''active''), timeframe = Some (1, 2)\<rparr>
   \<and> cells (heap (snd (train (\<lambda>m X Y b e. (None, m)) [0] [1] 1 16
      \<lparr>disaggregator = (init (\<lambda>s. ()) 5 2)\<lparr>mmax := Some (Some 40)\<rparr>,
       heap = \<lparr>cells = (\<lambda>r. \<lparr>data = [(1, Some 10), (2, None)],
                               name = (''power'', ''active''), timeframe = Some (1, 2)\<rparr>),
               nxt = 2\<rparr>,
       output_datastore = [], output_metadata = []\<rparr>))) 0
     = \<lparr>data = [(1, Some 10), (2, None)],
        name = (''power'', ''active''), timeframe = Some (1, 2)\<rparr>"
proof -
  let ?w = "\<lparr>disaggregator = (init (\<lambda>s. ()) 5 2)\<lparr>mmax := Some (Some 40)\<rparr>,
       heap = \<lparr>cells = (\<lambda>r. \<lparr>data = [(1, Some 10), (2, None)],
                               name = (''power'', ''active''), timeframe = Some (1, 2)\<rparr>),
               nxt = 2\<rparr>,
       output_datastore = [], output_metadata = []\<rparr>"
  have a: "0 < nxt (heap ?w)" by simp
  note t = callers_chunks_after_call [of ?w "\<lambda>m X Y b e. (None, m)" "[0]" "[1]" 1 16
      "\<lambda>m X. Inr (map (map Some) X)" "[0]" 1 None]
  have "cells (heap (snd (disaggregate (\<lambda>m X. Inr (map (map Some) X)) [0] 1 None ?w))) 0 = cells (heap ?w) 0"
    using t [THEN conjunct2, THEN conjunct1, rule_format, OF a] .
  moreover have "cells (heap (snd (train (\<lambda>m X Y b e. (None, m)) [0] [1] 1 16 ?w))) 0
                   = cells (heap ?w) 0"
    using t [THEN conjunct1, rule_format, OF a] .
  ultimately show ?thesis by simp
qed

subsection \<open>Importing a model\<close>

text \<open>
  C7 as stated fails: the artifact has a predictor and no group \<open>disaggregator-data\<close>.
  The import raises AttributeError, the scale is as before, and the predictor of the
  instance is already the one of the artifact (7, not 3).
\<close>

theorem import_without_mmax_replaces_predictor:
  "import_model (\<lambda>f. Inr (7::nat)) (\<lambda>f. Inr []) ''model.h5''
     \<lparr>mmax = Some (Some 40), sequence_length = 2, MIN_CHUNK_LENGTH = 2,
      meter_metadata = 5, model = 3\<rparr>
   = (Some AttributeError,
      \<lparr>mmax = Some (Some 40), sequence_length = 2, MIN_CHUNK_LENGTH = 2,
       meter_metadata = 5, model = 7\<rparr>)"
  by (simp add: import_model_def)

text \<open>
  C7, amended. Importing an artifact whose predictor loads and whose scale metadata is
  absent aborts with an error (AttributeError when the group is absent, IndexError when
  the data set is absent or empty); the scale of the instance is left as it was and no default is
  written, and the predictor of the instance is the one loaded from the artifact.
\<close>

theorem import_without_mmax:
  assumes "load_model filename = Inr m" and "h5py_File filename = Inr hf" and "lacks_mmax hf"
  shows "\<exists>e. import_model load_model h5py_File filename self = (Some e, self\<lparr>model := m\<rparr>)
           \<and> (if map_of hf ''disaggregator-data'' = None then e = AttributeError
                else e = IndexError)
           \<and> mmax (snd (import_model load_model h5py_File filename self)) = mmax self
           \<and> model (snd (import_model load_model h5py_File filename self)) = m"
  using assms
  by (auto simp: import_model_def lacks_mmax_def Let_def split: option.splits list.splits)

theorem import_without_mmax_witness:
  "import_model (\<lambda>f. Inr (7::nat)) (\<lambda>f. Inr [(''disaggregator-data'', [])]) ''model.h5''
     \<lparr>mmax = Some (Some 40), sequence_length = 2, MIN_CHUNK_LENGTH = 2,
      meter_metadata = 5, model = 3\<rparr>
   = (Some IndexError,
      \<lparr>mmax = Some (Some 40), sequence_length = 2, MIN_CHUNK_LENGTH = 2,
       meter_metadata = 5, model = 7\<rparr>)
   \<and> import_model (\<lambda>f. Inr (7::nat)) (\<lambda>f. Inr [(''disaggregator-data'', [(''mmax'', [])])])
       ''model.h5''
       \<lparr>mmax = Some (Some 40), sequence_length = 2, MIN_CHUNK_LENGTH = 2,
        meter_metadata = 5, model = 3\<rparr>
     = (Some IndexError,
        \<lparr>mmax = Some (Some 40), sequence_length = 2, MIN_CHUNK_LENGTH = 2,
         meter_metadata = 5, model = 7\<rparr>)"
proof -
  have c: "lacks_mmax [(''disaggregator-data'', [])]" by (simp add: lacks_mmax_def)
  have d: "lacks_mmax [(''disaggregator-data'', [(''mmax'', [])])]"
    by (simp add: lacks_mmax_def)
  have a: "import_model (\<lambda>f. Inr (7::nat)) (\<lambda>f. Inr [(''disaggregator-data'', [])]) ''model.h5''
     \<lparr>mmax = Some (Some 40), sequence_length = 2, MIN_CHUNK_LENGTH = 2,
      meter_metadata = 5, model = 3\<rparr>
   = (Some IndexError,
      \<lparr>mmax = Some (Some 40), sequence_length = 2, MIN_CHUNK_LENGTH = 2,
       meter_metadata = 5, model = 7\<rparr>)"
    using c import_without_mmax [where load_model = "\<lambda>f. Inr (7::nat)"
        and filename = "''model.h5''" and m = 7
        and h5py_File = "\<lambda>f. Inr [(''disaggregator-data'', [])]"
        and hf = "[(''disaggregator-data'', [])]"
        and self = "\<lparr>mmax = Some (Some 40), sequence_length = 2, MIN_CHUNK_LENGTH = 2,
                      meter_metadata = 5, model = 3\<rparr>"]
    by auto
  have b: "import_model (\<lambda>f. Inr (7::nat))
       (\<lambda>f. Inr [(''disaggregator-data'', [(''mmax'', [])])]) ''model.h5''
       \<lparr>mmax = Some (Some 40), sequence_length = 2, MIN_CHUNK_LENGTH = 2,
        meter_metadata = 5, model = 3\<rparr>
     = (Some IndexError,
        \<lparr>mmax = Some (Some 40), sequence_length = 2, MIN_CHUNK_LENGTH = 2,
         meter_metadata = 5, model = 7\<rparr>)"
    using d import_without_mmax [where load_model = "\<lambda>f. Inr (7::nat)"
        and filename = "''model.h5''" and m = 7
        and h5py_File = "\<lambda>f. Inr [(''disaggregator-data'', [(''mmax'', [])])]"
        and hf = "[(''disaggregator-data'', [(''mmax'', [])])]"
        and self = "\<lparr>mmax = Some (Some 40), sequence_length = 2, MIN_CHUNK_LENGTH = 2,
                      meter_metadata = 5, model = 3\<rparr>"]
    by auto
  show ?thesis using a b by (intro conjI)
qed

end
